theory Spec2Isabelle
  imports Main
begin

section \<open>Everyday Tasks Hub: the state store of \<open>server.js\<close>\<close>

text \<open>
  The server keeps three in-memory dictionaries and a counter, and answers JSON requests.
  This theory embeds the functions of \<open>server.js\<close> that read and write them.

  Scope of the embedding.
  \<^item> A JavaScript value that can come out of \<open>JSON.parse\<close> or out of the object literals
    of the source is a \<open>json\<close>; \<open>undefined\<close> is a value of its own, because the source
    tests for it.
  \<^item> An object is the list of its own properties in insertion order; writing a property
    replaces it in place or appends it. Keys that look like array indices (which
    JavaScript enumerates first) keep their place in the list.
  \<^item> The dictionaries and the hub states are plain objects, so they inherit the
    properties of \<open>Object.prototype\<close>. A read \<open>obj[key]\<close> that finds no own property finds
    the built-in object inherited under the name, and a write to \<open>__proto__\<close> that
    is not an own property replaces the prototype of the object. The embedding follows
    every such read and write of the source up to the point where the source goes on
    with a built-in object in the place of a hub state or of a profile, or with an
    object whose prototype was replaced; there it stops (\<open>Reparented\<close>, \<open>Beyond\<close>), since
    from then on the built-in objects of the runtime are part of the state.
  \<^item> A string is the list of its characters, one \<open>char\<close> per byte of the source file;
    \<open>toLowerCase\<close> is the mapping of the letters A to Z.
  \<^item> A number is only stored, copied and tested for being zero; it is an \<open>int\<close>. The
    visitor counter is a \<open>nat\<close>.
  \<^item> \<open>new Date().toISOString()\<close> reads a clock; every handler receives the readings as a
    function from the position of the call in the handler to the string read there.
\<close>

subsection \<open>JSON values\<close>

datatype json =
    JUndefined
  | JNull
  | JBool bool
  | JNum int
  | JStr string
  | JArr "json list"
  | JObj "(string \<times> json) list"

type_synonym jobject = "(string \<times> json) list"

text \<open>\<open>typeof v\<close>, \<open>Array.isArray(v)\<close> and the truth test of \<open>if (v)\<close>, \<open>!v\<close>, \<open>v || w\<close>.\<close>

fun typeof :: "json \<Rightarrow> string" where
  "typeof JUndefined = ''undefined''"
| "typeof JNull = ''object''"
| "typeof (JBool b) = ''boolean''"
| "typeof (JNum n) = ''number''"
| "typeof (JStr s) = ''string''"
| "typeof (JArr xs) = ''object''"
| "typeof (JObj kvs) = ''object''"

fun isArray :: "json \<Rightarrow> bool" where
  "isArray (JArr xs) = True"
| "isArray v = False"

fun truthy :: "json \<Rightarrow> bool" where
  "truthy JUndefined = False"
| "truthy JNull = False"
| "truthy (JBool b) = b"
| "truthy (JNum n) = (n \<noteq> 0)"
| "truthy (JStr s) = (s \<noteq> [])"
| "truthy (JArr xs) = True"
| "truthy (JObj kvs) = True"

text \<open>\<open>obj[key]\<close> on an object: the own property, or \<open>undefined\<close>.\<close>

definition getProp :: "jobject \<Rightarrow> string \<Rightarrow> json" where
  "getProp obj key = (case map_of obj key of None \<Rightarrow> JUndefined | Some v \<Rightarrow> v)"

text \<open>\<open>obj[key] = v\<close> on an object: an existing property keeps its place, a new one
  goes last.\<close>

fun setProp :: "jobject \<Rightarrow> string \<Rightarrow> json \<Rightarrow> jobject" where
  "setProp [] key v = [(key, v)]"
| "setProp ((k, w) # rest) key v =
     (if k = key then (k, v) # rest else (k, w) # setProp rest key v)"

text \<open>The properties of a value that passed the plain-object test.\<close>

fun ownProperties :: "json \<Rightarrow> jobject" where
  "ownProperties (JObj kvs) = kvs"
| "ownProperties v = []"

subsection \<open>Strings\<close>

definition startsWith :: "string \<Rightarrow> string \<Rightarrow> bool" where
  "startsWith s p = (take (length p) s = p)"

text \<open>\<open>s.includes(sub)\<close>: \<open>sub\<close> occurs in \<open>s\<close> as a contiguous run.\<close>

fun includesStr :: "string \<Rightarrow> string \<Rightarrow> bool" where
  "includesStr [] sub = (sub = [])"
| "includesStr (c # cs) sub = (startsWith (c # cs) sub \<or> includesStr cs sub)"

definition toLowerChar :: "char \<Rightarrow> char" where
  "toLowerChar c =
     (if 65 \<le> (of_char c :: nat) \<and> (of_char c :: nat) \<le> 90
      then char_of ((of_char c :: nat) + 32) else c)"

definition toLowerCase :: "string \<Rightarrow> string" where
  "toLowerCase s = map toLowerChar s"

text \<open>The decimal digits of a number, as a template literal prints a counter.\<close>

fun numberToString :: "nat \<Rightarrow> string" where
  "numberToString n =
     (if n < 10 then [char_of (48 + n)]
      else numberToString (n div 10) @ [char_of (48 + n mod 10)])"

declare numberToString.simps [simp del]

subsection \<open>Recursive merge\<close>

text \<open>
  \<open>for (const key in source)\<close> with \<open>source[key]\<close>: the own properties of an object, the
  indices of an array with its elements, the indices of a string with its characters,
  nothing for any other value.
\<close>

fun ownEntries :: "json \<Rightarrow> (string \<times> json) list" where
  "ownEntries (JObj kvs) = kvs"
| "ownEntries (JArr xs) = zip (map numberToString [0..<length xs]) xs"
| "ownEntries (JStr s) = zip (map numberToString [0..<length s]) (map (\<lambda>c. JStr [c]) s)"
| "ownEntries v = []"

text \<open>
  The names every object inherits from \<open>Object.prototype\<close> (the properties the language
  gives it). Eleven hold built-in functions; \<open>__proto__\<close> is an accessor: reading it gives
  the prototype of the object (for an object literal, \<open>Object.prototype\<close> itself), writing
  an object or null to it replaces the prototype, writing anything else does nothing.
\<close>

definition objectPrototypeNames :: "string list" where
  "objectPrototypeNames =
     [''constructor'', ''__defineGetter__'', ''__defineSetter__'', ''hasOwnProperty'',
      ''__lookupGetter__'', ''__lookupSetter__'', ''isPrototypeOf'',
      ''propertyIsEnumerable'', ''toString'', ''valueOf'', ''__proto__'',
      ''toLocaleString'']"

text \<open>
  What \<open>target[key]\<close> can give: a value of the program, or a built-in object of the
  runtime, named by the property of \<open>Object.prototype\<close> that leads to it
  (\<open>BuiltinObject ''__proto__''\<close> is \<open>Object.prototype\<close>, the others are functions).
\<close>

datatype jsvalue = JsonValue json | BuiltinObject string

fun typeofJs :: "jsvalue \<Rightarrow> string" where
  "typeofJs (JsonValue v) = typeof v"
| "typeofJs (BuiltinObject n) = (if n = ''__proto__'' then ''object'' else ''function'')"

fun isArrayJs :: "jsvalue \<Rightarrow> bool" where
  "isArrayJs (JsonValue v) = isArray v"
| "isArrayJs (BuiltinObject n) = False"

text \<open>
  The target of a merge: an object of the program with its own properties (its prototype
  is \<open>Object.prototype\<close>), or \<open>Object.prototype\<close> itself, which is what \<open>target['__proto__']\<close>
  is when the target has no own property of that name.
\<close>

datatype mergeTarget = Record jobject | ObjectPrototype

text \<open>
  \<open>target[key]\<close>: the own property; else what the target inherits under that name; else
  \<open>undefined\<close>. The prototype of \<open>Object.prototype\<close> is null.
\<close>

fun lookupProp :: "mergeTarget \<Rightarrow> string \<Rightarrow> jsvalue" where
  "lookupProp (Record obj) key =
     (case map_of obj key of
        Some v \<Rightarrow> JsonValue v
      | None \<Rightarrow>
          if key \<in> set objectPrototypeNames then BuiltinObject key else JsonValue JUndefined)"
| "lookupProp ObjectPrototype key =
     (if key = ''__proto__'' then JsonValue JNull
      else if key \<in> set objectPrototypeNames then BuiltinObject key
      else JsonValue JUndefined)"

text \<open>\<open>{ ...target }\<close>: the own enumerable properties; \<open>Object.prototype\<close> has none.\<close>

fun spreadTarget :: "mergeTarget \<Rightarrow> jobject" where
  "spreadTarget (Record obj) = obj"
| "spreadTarget ObjectPrototype = []"

text \<open>A value that passed the plain-object test, as the target of the recursive call.\<close>

fun asTarget :: "jsvalue \<Rightarrow> mergeTarget" where
  "asTarget (JsonValue v) = Record (ownProperties v)"
| "asTarget (BuiltinObject n) = ObjectPrototype"

text \<open>
  The result of a merge: an object with its own properties and the prototype
  \<open>Object.prototype\<close>, or \<open>Reparented\<close>: the result, or an object inside it, has got
  another prototype from the update, and is no longer a record of own properties.
\<close>

datatype merged = Merged jobject | Reparented

text \<open>
  \<open>result[key] = v\<close> in the loop. An own property is replaced, and a key other than
  \<open>__proto__\<close> is added. \<open>__proto__\<close> that is not an own property goes to the setter of
  \<open>Object.prototype\<close>: an object or null becomes the prototype of \<open>result\<close>, any other
  value is dropped; in neither case does \<open>result\<close> get the key.
\<close>

definition assignKey :: "jobject \<Rightarrow> string \<Rightarrow> json \<Rightarrow> merged" where
  "assignKey result key v =
     (if map_of result key \<noteq> None \<or> key \<noteq> ''__proto__'' then Merged (setProp result key v)
      else if typeof v = ''object'' then Reparented
      else Merged result)"

text \<open>
  \<open>deepMerge(target, source)\<close>. \<open>mergeEntries\<close> is the loop; its last argument is \<open>result\<close>,
  which starts as the copy \<open>{ ...target }\<close>. The source is a value of the request body,
  so \<open>for ... in\<close> meets its own keys only: the prototypes of parsed values have no
  enumerable properties.
\<close>

definition objWeight :: "json \<Rightarrow> nat" where
  "objWeight v = (case v of JObj kvs \<Rightarrow> size v + 1 | _ \<Rightarrow> 0)"

lemma objWeight_le_size: "objWeight v \<le> size v + 1"
  by (cases v) (simp_all add: objWeight_def)

lemma sum_objWeight_zip:
  "(\<Sum>(k, v)\<leftarrow>zip ks xs. objWeight v) \<le> size_list size xs"
proof (induction xs arbitrary: ks)
  case Nil
  then show ?case by simp
next
  case (Cons x xs)
  show ?case
  proof (cases ks)
    case Nil
    then show ?thesis by simp
  next
    case (Cons k ks')
    have "objWeight x \<le> size x + 1" by (rule objWeight_le_size)
    moreover have "(\<Sum>(k, v)\<leftarrow>zip ks' xs. objWeight v) \<le> size_list size xs"
      by (rule Cons.IH)
    ultimately show ?thesis using Cons by simp
  qed
qed

lemma sum_objWeight_obj:
  "(\<Sum>(k, v)\<leftarrow>kvs. objWeight v) \<le> size_list (size_prod (\<lambda>_. 0) size) kvs"
proof (induction kvs)
  case Nil
  then show ?case by simp
next
  case (Cons p kvs)
  obtain k v where p: "p = (k, v)" by (cases p)
  have "objWeight v \<le> size v + 1" by (rule objWeight_le_size)
  then show ?case using Cons p by simp
qed

lemma sum_objWeight_chars:
  "(\<Sum>(k, v)\<leftarrow>zip ks (map (\<lambda>c. JStr [c]) s). objWeight v) = 0"
proof (induction s arbitrary: ks)
  case Nil
  then show ?case by simp
next
  case (Cons c s)
  then show ?case by (cases ks) (simp_all add: objWeight_def)
qed

lemma sum_objWeight_ownEntries:
  "(\<Sum>(k, v)\<leftarrow>ownEntries source. objWeight v) \<le> size source"
proof (cases source)
  case (JStr s)
  then show ?thesis by (simp add: sum_objWeight_chars)
next
  case (JArr xs)
  then show ?thesis
    using sum_objWeight_zip [of "map numberToString [0..<length xs]" xs] by simp
next
  case (JObj kvs)
  then show ?thesis using sum_objWeight_obj [of kvs] by simp
qed simp_all

lemma plain_object_weight:
  "v \<noteq> JNull \<Longrightarrow> typeof v = ''object'' \<Longrightarrow> \<not> isArray v \<Longrightarrow> objWeight v = size v + 1"
  by (cases v) (simp_all add: objWeight_def)

function deepMerge :: "mergeTarget \<Rightarrow> json \<Rightarrow> merged"
  and mergeEntries :: "mergeTarget \<Rightarrow> (string \<times> json) list \<Rightarrow> jobject \<Rightarrow> merged" where
  "deepMerge target source = mergeEntries target (ownEntries source) (spreadTarget target)"
| "mergeEntries target [] result = Merged result"
| "mergeEntries target ((key, v) # rest) result =
     (if v \<noteq> JUndefined then
        (if v \<noteq> JNull \<and> typeof v = ''object'' \<and> \<not> isArray v \<and>
            lookupProp target key \<noteq> JsonValue JNull \<and>
            typeofJs (lookupProp target key) = ''object'' \<and>
            \<not> isArrayJs (lookupProp target key)
         then
           (case deepMerge (asTarget (lookupProp target key)) v of
              Merged m \<Rightarrow>
                (case assignKey result key (JObj m) of
                   Merged r \<Rightarrow> mergeEntries target rest r
                 | Reparented \<Rightarrow> Reparented)
            | Reparented \<Rightarrow> Reparented)
         else
           (case assignKey result key v of
              Merged r \<Rightarrow> mergeEntries target rest r
            | Reparented \<Rightarrow> Reparented))
      else mergeEntries target rest result)"
  by pat_completeness auto

termination
  apply (relation "inv_image (less_than <*lex*> less_than)
    (\<lambda>x. case x of
        Inl (target, source) \<Rightarrow> (2 * size source + 1, 0)
      | Inr (target, entries, result) \<Rightarrow>
          (2 * (\<Sum>(k, v)\<leftarrow>entries. objWeight v), length entries))")
  subgoal
    by (intro wf_inv_image wf_lex_prod wf_less_than)
  subgoal for target source
    using sum_objWeight_ownEntries [of source] by simp
  subgoal for target key v rest result
    by (simp add: plain_object_weight)
  subgoal for target key v rest result
    by (cases "objWeight v = 0") simp_all
  subgoal for target key v rest result
    by (cases "objWeight v = 0") simp_all
  subgoal for target key v rest result
    by (cases "objWeight v = 0") simp_all
  done

text \<open>
  The spec's words for the values that are merged key by key: a non-null, non-array
  structured record.
\<close>

fun isRecordValue :: "json \<Rightarrow> bool" where
  "isRecordValue (JObj kvs) = True"
| "isRecordValue v = False"

subsection \<open>The in-memory store\<close>

text \<open>
  An entry of \<open>registeredProfiles\<close>: the object literal
  \<open>{ name, avatar, createdAt, lastSeen }\<close>.
\<close>

record profile =
  name :: string
  avatar :: string
  createdAt :: string
  lastSeen :: string

text \<open>
  The module's variables \<open>hubStateByVisitorId\<close>, \<open>alexaUserToVisitor\<close>, \<open>visitorCounter\<close>
  and \<open>registeredProfiles\<close>. The three dictionaries are plain objects; a map holds
  their own properties, and what they inherit is added where they are read and written
  (\<open>assignStore\<close>, \<open>getOrCreateHubState\<close>). The keys of \<open>alexaUserToVisitor\<close> start with
  \<open>amzn1.\<close>, so none of them is an inherited name.
\<close>

record server =
  hubStateByVisitorId :: "string \<rightharpoonup> jobject"
  alexaUserToVisitor :: "string \<rightharpoonup> string"
  visitorCounter :: nat
  registeredProfiles :: "string \<rightharpoonup> profile"

definition initialServer :: server where
  "initialServer =
     \<lparr>hubStateByVisitorId = Map.empty, alexaUserToVisitor = Map.empty,
      visitorCounter = 0, registeredProfiles = Map.empty\<rparr>"

type_synonym clock = "nat \<Rightarrow> string"

subsection \<open>The default task catalog\<close>

definition taskRecord ::
  "string \<Rightarrow> string \<Rightarrow> string \<Rightarrow> string \<Rightarrow> string \<Rightarrow> string \<Rightarrow> json" where
  "taskRecord tid title icon description category voiceCommand =
     JObj [(''id'', JStr tid), (''title'', JStr title), (''icon'', JStr icon),
           (''description'', JStr description), (''category'', JStr category),
           (''voiceCommand'', JStr voiceCommand)]"

definition DEFAULT_TASKS :: "json list" where
  "DEFAULT_TASKS =
     [taskRecord ''t1'' ''Morning Routine''
        [CHR 0xC3, CHR 0xA2, CHR 0xCB, CHR 0x9C, CHR 0xE2, CHR 0x82, CHR 0xAC, CHR 0xC3,
         CHR 0xAF, CHR 0xC2, CHR 0xB8]
        ''Start your day right'' ''routine'' ''start my morning routine'',
      taskRecord ''t2'' ''Grocery List''
        [CHR 0xC3, CHR 0xB0, CHR 0xC5, CHR 0xB8, CHR 0xE2, CHR 0x80, CHR 0xBA, CHR 0xE2,
         CHR 0x80, CHR 0x99]
        ''Manage shopping items'' ''list'' ''open my grocery list'',
      taskRecord ''t3'' ''Medication Reminder''
        [CHR 0xC3, CHR 0xB0, CHR 0xC5, CHR 0xB8, CHR 0xE2, CHR 0x80, CHR 0x99, CHR 0xC5,
         CHR 0xA0]
        ''Never miss a dose'' ''health'' ''set medication reminder'',
      taskRecord ''t4'' ''Control Lights''
        [CHR 0xC3, CHR 0xB0, CHR 0xC5, CHR 0xB8, CHR 0xE2, CHR 0x80, CHR 0x99, CHR 0xC2,
         CHR 0xA1]
        ''Smart home controls'' ''home'' ''turn off the lights'',
      taskRecord ''t5'' ''Privacy Dashboard''
        [CHR 0xC3, CHR 0xB0, CHR 0xC5, CHR 0xB8, CHR 0xE2, CHR 0x80, CHR 0xBA, CHR 0xC2,
         CHR 0xA1, CHR 0xC3, CHR 0xAF, CHR 0xC2, CHR 0xB8]
        ''Manage your data'' ''privacy'' ''show privacy settings'',
      taskRecord ''t6'' ''Evening Routine''
        [CHR 0xC3, CHR 0xB0, CHR 0xC5, CHR 0xB8, CHR 0xC5, CHR 0x92, CHR 0xE2, CHR 0x84,
         CHR 0xA2]
        ''Wind down for the night'' ''routine'' ''start evening routine'']"

subsection \<open>Identifier resolution\<close>

text \<open>
  \<open>getVisitorId(alexaUserId)\<close>. The test \<open>!alexaUserToVisitor[alexaUserId]\<close> holds when the
  key is missing and when it holds the empty string. The dictionary is read and written
  only at keys that start with \<open>amzn1.\<close>, and no name that an object inherits does, so
  every lookup is a lookup of an own property.
\<close>

definition getVisitorId :: "string \<Rightarrow> server \<Rightarrow> string \<times> server" where
  "getVisitorId alexaUserId s =
     (if \<not> startsWith alexaUserId ''amzn1.'' then (alexaUserId, s)
      else
        (case alexaUserToVisitor s alexaUserId of
           Some v \<Rightarrow>
             if v \<noteq> [] then (v, s)
             else
               (''alexa-user-'' @ numberToString (visitorCounter s + 1),
                s\<lparr>visitorCounter := visitorCounter s + 1,
                  alexaUserToVisitor := (alexaUserToVisitor s)
                    (alexaUserId \<mapsto> ''alexa-user-'' @ numberToString (visitorCounter s + 1))\<rparr>)
         | None \<Rightarrow>
             (''alexa-user-'' @ numberToString (visitorCounter s + 1),
              s\<lparr>visitorCounter := visitorCounter s + 1,
                alexaUserToVisitor := (alexaUserToVisitor s)
                  (alexaUserId \<mapsto> ''alexa-user-'' @ numberToString (visitorCounter s + 1))\<rparr>)))"

text \<open>\<open>getVisitorId\<close> called on each identifier of a list in turn.\<close>

fun getVisitorIds :: "string list \<Rightarrow> server \<Rightarrow> string list \<times> server" where
  "getVisitorIds [] s = ([], s)"
| "getVisitorIds (x # xs) s =
     (case getVisitorId x s of
        (v, s1) \<Rightarrow> (case getVisitorIds xs s1 of (vs, s2) \<Rightarrow> (v # vs, s2)))"

subsection \<open>Default state\<close>

text \<open>\<open>createDefaultHubState(visitorId)\<close>; \<open>t\<close> is the clock reading of \<open>lastUpdated\<close>.\<close>

definition createDefaultHubState :: "string \<Rightarrow> string \<Rightarrow> jobject" where
  "createDefaultHubState t visitorId =
     [(''visitorId'', JStr visitorId),
      (''odisplayName'', JNull),
      (''activeTile'', JStr ''home''),
      (''lastAction'', JStr ''NONE''),
      (''profile'', JStr ''default''),
      (''routineResult'',
         JObj [(''lights'', JNull), (''thermostat'', JNull), (''reminder'', JNull)]),
      (''groceryList'', JArr []),
      (''pendingItem'', JNull),
      (''privacy'',
         JObj [(''microphoneEnabled'', JBool True), (''allowVoiceHistory'', JBool True),
               (''lastHistoryDelete'', JNull)]),
      (''tasks'', JArr DEFAULT_TASKS),
      (''customTasks'', JArr []),
      (''debugInfo'',
         JObj [(''lastUpdated'', JStr t), (''lastAlexaRequest'', JNull),
               (''isAlexaUser'', JBool (startsWith visitorId ''alexa-user-''))])]"

text \<open>
  \<open>store[key] = v\<close> on a dictionary, where \<open>v\<close> is an object: an own property is replaced,
  a key other than \<open>__proto__\<close> is added; \<open>__proto__\<close> that is not an own property
  replaces the prototype of the dictionary (\<open>None\<close>): from then on the dictionary would
  answer for every key of \<open>v\<close>.
\<close>

definition assignStore :: "(string \<rightharpoonup> 'a) \<Rightarrow> string \<Rightarrow> 'a \<Rightarrow> (string \<rightharpoonup> 'a) option" where
  "assignStore store key v =
     (if store key = None \<and> key = ''__proto__'' then None else Some (store(key \<mapsto> v)))"

text \<open>
  \<open>getOrCreateHubState(visitorId)\<close>. The test \<open>!hubStateByVisitorId[visitorId]\<close> fails for
  an own property (a state is an object) and also for a name the dictionary inherits,
  whose value is a built-in object: then nothing is created and that built-in object
  is returned. \<open>t\<close> is the clock reading of \<open>createDefaultHubState\<close>.
\<close>

datatype hubStateRef = StateObject jobject | InheritedObject string

definition getOrCreateHubState :: "string \<Rightarrow> string \<Rightarrow> server \<Rightarrow> hubStateRef \<times> server" where
  "getOrCreateHubState t visitorId s =
     (case hubStateByVisitorId s visitorId of
        Some hubState \<Rightarrow> (StateObject hubState, s)
      | None \<Rightarrow>
          if visitorId \<in> set objectPrototypeNames then (InheritedObject visitorId, s)
          else
            (StateObject (createDefaultHubState t visitorId),
             s\<lparr>hubStateByVisitorId := (hubStateByVisitorId s)
                 (visitorId \<mapsto> createDefaultHubState t visitorId)\<rparr>))"

subsection \<open>Avatars\<close>

definition avatarWoman :: string where
  "avatarWoman = [CHR 0xC3, CHR 0xB0, CHR 0xC5, CHR 0xB8, CHR 0xE2, CHR 0x80, CHR 0x98, CHR 0xC2, CHR 0xA9]"

definition avatarMan :: string where
  "avatarMan = [CHR 0xC3, CHR 0xB0, CHR 0xC5, CHR 0xB8, CHR 0xE2, CHR 0x80, CHR 0x98, CHR 0xC2, CHR 0xA8]"

definition avatarBoy :: string where
  "avatarBoy = [CHR 0xC3, CHR 0xB0, CHR 0xC5, CHR 0xB8, CHR 0xE2, CHR 0x80, CHR 0x98, CHR 0xC2, CHR 0xA6]"

definition avatarGirl :: string where
  "avatarGirl = [CHR 0xC3, CHR 0xB0, CHR 0xC5, CHR 0xB8, CHR 0xE2, CHR 0x80, CHR 0x98, CHR 0xC2, CHR 0xA7]"

definition avatarOldWoman :: string where
  "avatarOldWoman = [CHR 0xC3, CHR 0xB0, CHR 0xC5, CHR 0xB8, CHR 0xE2, CHR 0x80, CHR 0x98, CHR 0xC2, CHR 0xB5]"

definition avatarOldMan :: string where
  "avatarOldMan = [CHR 0xC3, CHR 0xB0, CHR 0xC5, CHR 0xB8, CHR 0xE2, CHR 0x80, CHR 0x98, CHR 0xC2, CHR 0xB4]"

definition avatarStudent :: string where
  "avatarStudent =
     [CHR 0xC3, CHR 0xB0, CHR 0xC5, CHR 0xB8, CHR 0xC2, CHR 0xA7, CHR 0xE2, CHR 0x80,
      CHR 0x98, CHR 0xC3, CHR 0xA2, CHR 0xE2, CHR 0x82, CHR 0xAC, CHR 0xC3, CHR 0xB0,
      CHR 0xC5, CHR 0xB8, CHR 0xC5, CHR 0xBD, CHR 0xE2, CHR 0x80, CHR 0x9C]"

definition avatarGeneric :: string where
  "avatarGeneric = [CHR 0xC3, CHR 0xB0, CHR 0xC5, CHR 0xB8, CHR 0xE2, CHR 0x80, CHR 0x98, CHR 0xC2, CHR 0xA4]"

text \<open>\<open>getAvatarForName(name)\<close>: the chain of \<open>if (...) return\<close> in the source's order.\<close>

definition getAvatarForName :: "string \<Rightarrow> string" where
  "getAvatarForName nm =
     (let nameLower = toLowerCase nm in
      if includesStr nameLower ''mom'' \<or> includesStr nameLower ''mother'' \<or>
         includesStr nameLower ''mama'' then avatarWoman
      else if includesStr nameLower ''dad'' \<or> includesStr nameLower ''father'' \<or>
         includesStr nameLower ''papa'' then avatarMan
      else if includesStr nameLower ''kid'' \<or> includesStr nameLower ''child'' \<or>
         includesStr nameLower ''son'' then avatarBoy
      else if includesStr nameLower ''daughter'' \<or> includesStr nameLower ''girl''
        then avatarGirl
      else if includesStr nameLower ''grandma'' \<or> includesStr nameLower ''grandmother''
        then avatarOldWoman
      else if includesStr nameLower ''grandpa'' \<or> includesStr nameLower ''grandfather''
        then avatarOldMan
      else if includesStr nameLower ''student'' then avatarStudent
      else avatarGeneric)"

subsection \<open>Request handlers\<close>

text \<open>
  A handler answers with the HTTP status and the JSON body, and leaves a store. A
  \<open>TypeError\<close> thrown inside the \<open>try\<close> block (calling \<open>startsWith\<close> or \<open>toLowerCase\<close> on a
  value that is not a string) reaches the \<open>catch\<close>, which answers 500; the store keeps
  what was written before the throw.

  \<open>Beyond\<close> marks the places where a handler goes on with a built-in object of the
  runtime in the place of a hub state or of a profile, with a merged state whose
  prototype was replaced, or by replacing the prototype of a dictionary. The source
  does go on there (it writes into the built-in object, stores it, answers); the
  embedding does not follow it. The store of \<open>Beyond\<close> is the store at that point.
\<close>

datatype response = Response nat json | BuiltinResponse string

datatype outcome = Answer response server | Beyond server

definition badRequest :: "string \<Rightarrow> response" where
  "badRequest msg = Response 400 (JObj [(''ok'', JBool False), (''error'', JStr msg)])"

definition internalError :: response where
  "internalError =
     Response 500 (JObj [(''ok'', JBool False), (''error'', JStr ''Internal server error'')])"

definition profileJson :: "profile \<Rightarrow> json" where
  "profileJson p =
     JObj [(''name'', JStr (name p)), (''avatar'', JStr (avatar p)),
           (''createdAt'', JStr (createdAt p)), (''lastSeen'', JStr (lastSeen p))]"

text \<open>
  \<open>v.key = x\<close> where \<open>v\<close> is a truthy value: an object gets the property; on a string, a
  number or a boolean the assignment does nothing (the module is not in strict mode); on
  an array it adds a named property that no later read or \<open>JSON.stringify\<close> sees.
\<close>

fun assignProp :: "json \<Rightarrow> string \<Rightarrow> json \<Rightarrow> json" where
  "assignProp (JObj kvs) key x = JObj (setProp kvs key x)"
| "assignProp v key x = v"

text \<open>
  \<open>registeredProfiles[visitorId]?.createdAt || new Date().toISOString()\<close>, with \<open>t\<close> the
  clock reading. A built-in object that the dictionary inherits under the name has no
  \<open>createdAt\<close>, so it gives the clock reading as a missing profile does.
\<close>

definition createdAtOr :: "server \<Rightarrow> string \<Rightarrow> string \<Rightarrow> string" where
  "createdAtOr s visitorId t =
     (case registeredProfiles s visitorId of
        Some p \<Rightarrow> if createdAt p \<noteq> [] then createdAt p else t
      | None \<Rightarrow> t)"

text \<open>
  The end of \<open>POST /hub/state\<close>, from \<open>updatedState.debugInfo = ...\<close> to the answer:
  the debug fields are refreshed, the state is stored, and \<open>lastSeen\<close> of an existing
  profile is set again. \<open>t3\<close> and \<open>t4\<close> are the clock readings of \<open>lastUpdated\<close> and of
  that \<open>lastSeen\<close>. Where \<open>registeredProfiles[visitorId]\<close> is an inherited built-in object,
  \<open>lastSeen\<close> is written into that object.
\<close>

definition storeUpdatedState ::
  "string \<Rightarrow> string \<Rightarrow> string \<Rightarrow> string \<Rightarrow> jobject \<Rightarrow> server \<Rightarrow> outcome" where
  "storeUpdatedState t3 t4 userId visitorId updatedState s =
     (let updatedState1 =
            setProp updatedState ''debugInfo''
              (if truthy (getProp updatedState ''debugInfo'')
               then getProp updatedState ''debugInfo'' else JObj []);
          updatedState2 =
            setProp updatedState1 ''debugInfo''
              (assignProp
                 (assignProp
                    (assignProp (getProp updatedState1 ''debugInfo'')
                       ''lastUpdated'' (JStr t3))
                    ''isAlexaUser'' (JBool (startsWith userId ''amzn1.'')))
                 ''originalAlexaId''
                 (if startsWith userId ''amzn1.'' then JStr (take 30 userId @ ''...'')
                  else JNull))
      in
        (case assignStore (hubStateByVisitorId s) visitorId updatedState2 of
           None \<Rightarrow> Beyond s
         | Some states \<Rightarrow>
             (case registeredProfiles s visitorId of
                Some p \<Rightarrow>
                  Answer
                    (Response 200
                       (JObj [(''ok'', JBool True), (''state'', JObj updatedState2),
                              (''visitorId'', JStr visitorId)]))
                    (s\<lparr>hubStateByVisitorId := states,
                       registeredProfiles := (registeredProfiles s)
                         (visitorId \<mapsto> p\<lparr>lastSeen := t4\<rparr>)\<rparr>)
              | None \<Rightarrow>
                  if visitorId \<in> set objectPrototypeNames
                  then Beyond (s\<lparr>hubStateByVisitorId := states\<rparr>)
                  else
                    Answer
                      (Response 200
                         (JObj [(''ok'', JBool True), (''state'', JObj updatedState2),
                                (''visitorId'', JStr visitorId)]))
                      (s\<lparr>hubStateByVisitorId := states\<rparr>))))"

text \<open>
  \<open>POST /hub/state\<close> with the fields \<open>userId\<close>, \<open>state\<close>, \<open>displayName\<close> of the body
  (\<open>JUndefined\<close> for a field the body lacks). Clock readings: 0 in
  \<open>createDefaultHubState\<close>, 1 and 2 for \<open>createdAt\<close> and \<open>lastSeen\<close> of the profile, 3 for
  \<open>lastUpdated\<close>, 4 for the final \<open>lastSeen\<close>.
\<close>

definition postHubState :: "clock \<Rightarrow> json \<Rightarrow> json \<Rightarrow> json \<Rightarrow> server \<Rightarrow> outcome" where
  "postHubState now userId state displayName s =
     (if \<not> truthy userId then Answer (badRequest ''userId is required'') s
      else
        (case userId of
           JStr uid \<Rightarrow>
             (case getVisitorId uid s of
                (visitorId, s1) \<Rightarrow>
                  (case getOrCreateHubState (now 0) visitorId s1 of
                     (InheritedObject n, s2) \<Rightarrow> Beyond s2
                   | (StateObject existingState, s2) \<Rightarrow>
                       (case deepMerge (Record existingState)
                               (if truthy state then state else JObj []) of
                          Reparented \<Rightarrow> Beyond s2
                        | Merged updatedState \<Rightarrow>
                            if truthy displayName then
                              (case displayName of
                                 JStr dn \<Rightarrow>
                                   (case assignStore (registeredProfiles s2) visitorId
                                           \<lparr>name = dn, avatar = getAvatarForName dn,
                                            createdAt = createdAtOr s2 visitorId (now 1),
                                            lastSeen = now 2\<rparr> of
                                      None \<Rightarrow> Beyond s2
                                    | Some profiles \<Rightarrow>
                                        storeUpdatedState (now 3) (now 4) uid visitorId
                                          (setProp updatedState ''displayName'' displayName)
                                          (s2\<lparr>registeredProfiles := profiles\<rparr>))
                               | _ \<Rightarrow> Answer internalError s2)
                            else
                              storeUpdatedState (now 3) (now 4) uid visitorId updatedState
                                s2)))
         | _ \<Rightarrow> Answer internalError s))"

text \<open>
  \<open>GET /hub/state/:userId\<close>; the path parameter is a string. For an inherited name the
  body is \<open>JSON.stringify\<close> of the built-in object (nothing for a function).
\<close>

definition getHubState :: "clock \<Rightarrow> string \<Rightarrow> server \<Rightarrow> outcome" where
  "getHubState now userId s =
     (if userId = [] then Answer (badRequest ''userId is required'') s
      else
        (case getVisitorId userId s of
           (visitorId, s1) \<Rightarrow>
             (case getOrCreateHubState (now 0) visitorId s1 of
                (StateObject hubState, s2) \<Rightarrow> Answer (Response 200 (JObj hubState)) s2
              | (InheritedObject n, s2) \<Rightarrow> Answer (BuiltinResponse n) s2)))"

text \<open>
  \<open>POST /hub/profile/register\<close> with the fields \<open>userId\<close> and \<open>name\<close> of the body. Clock
  readings: 0 and 1 for \<open>createdAt\<close> and \<open>lastSeen\<close>, 2 in \<open>createDefaultHubState\<close>. The
  profile is written before the hub state is looked up.
\<close>

definition postProfileRegister :: "clock \<Rightarrow> json \<Rightarrow> json \<Rightarrow> server \<Rightarrow> outcome" where
  "postProfileRegister now userId nm s =
     (if \<not> truthy userId \<or> \<not> truthy nm
      then Answer (badRequest ''userId and name are required'') s
      else
        (case userId of
           JStr uid \<Rightarrow>
             (case getVisitorId uid s of
                (visitorId, s1) \<Rightarrow>
                  (case nm of
                     JStr n \<Rightarrow>
                       (let p = \<lparr>name = n, avatar = getAvatarForName n,
                                 createdAt = createdAtOr s1 visitorId (now 0),
                                 lastSeen = now 1\<rparr>
                        in
                          (case assignStore (registeredProfiles s1) visitorId p of
                             None \<Rightarrow> Beyond s1
                           | Some profiles \<Rightarrow>
                               (case getOrCreateHubState (now 2) visitorId
                                       (s1\<lparr>registeredProfiles := profiles\<rparr>) of
                                  (InheritedObject i, s3) \<Rightarrow> Beyond s3
                                | (StateObject hubState, s3) \<Rightarrow>
                                    (let hubState1 =
                                           setProp hubState ''displayName'' (JStr n);
                                         hubState2 =
                                           setProp hubState1 ''profile''
                                             (JStr (toLowerCase n))
                                     in
                                       (case assignStore (hubStateByVisitorId s3) visitorId
                                               hubState2 of
                                          None \<Rightarrow> Beyond s3
                                        | Some states \<Rightarrow>
                                            Answer
                                              (Response 200
                                                 (JObj [(''ok'', JBool True),
                                                        (''profile'', profileJson p),
                                                        (''visitorId'', JStr visitorId)]))
                                              (s3\<lparr>hubStateByVisitorId := states\<rparr>))))))
                   | _ \<Rightarrow> Answer internalError s1))
         | _ \<Rightarrow> Answer internalError s))"

text \<open>\<open>POST /hub/reset\<close> with the field \<open>userId\<close> of the body.\<close>

definition postHubReset :: "clock \<Rightarrow> json \<Rightarrow> server \<Rightarrow> outcome" where
  "postHubReset now userId s =
     (if \<not> truthy userId then Answer (badRequest ''userId is required'') s
      else
        (case userId of
           JStr uid \<Rightarrow>
             (case getVisitorId uid s of
                (visitorId, s1) \<Rightarrow>
                  (case assignStore (hubStateByVisitorId s1) visitorId
                          (createDefaultHubState (now 0) visitorId) of
                     None \<Rightarrow> Beyond s1
                   | Some states \<Rightarrow>
                       Answer
                         (Response 200
                            (JObj [(''ok'', JBool True),
                                   (''state'',
                                    JObj (createDefaultHubState (now 0) visitorId))]))
                         (s1\<lparr>hubStateByVisitorId := states\<rparr>)))
         | _ \<Rightarrow> Answer internalError s))"

text \<open>
  The requests the server accepts, and the store after each (\<open>None\<close> after \<open>Beyond\<close>).
  \<open>GET /hub/profiles\<close>, \<open>GET /hub/tasks\<close>, \<open>GET /hub/users\<close> and \<open>GET /health\<close> build their
  answer from the store and write nothing.
\<close>

datatype request =
    PostHubState json json json
  | GetHubState string
  | GetHubProfiles
  | PostProfileRegister json json
  | GetHubTasks
  | PostHubReset json
  | GetHubUsers
  | GetHealth

fun storeAfter :: "outcome \<Rightarrow> server option" where
  "storeAfter (Answer r s) = Some s"
| "storeAfter (Beyond s) = None"

fun handle :: "clock \<Rightarrow> request \<Rightarrow> server \<Rightarrow> server option" where
  "handle now (PostHubState userId state displayName) s =
     storeAfter (postHubState now userId state displayName s)"
| "handle now (GetHubState userId) s = storeAfter (getHubState now userId s)"
| "handle now GetHubProfiles s = Some s"
| "handle now (PostProfileRegister userId nm) s =
     storeAfter (postProfileRegister now userId nm s)"
| "handle now GetHubTasks s = Some s"
| "handle now (PostHubReset userId) s = storeAfter (postHubReset now userId s)"
| "handle now GetHubUsers s = Some s"
| "handle now GetHealth s = Some s"

text \<open>
  The stores the server is in as long as every request is followed: the empty one at
  start, and the store after a request that did not end in \<open>Beyond\<close>.
\<close>

inductive reachable :: "server \<Rightarrow> bool" where
  reachable_init: "reachable initialServer"
| reachable_step: "reachable s \<Longrightarrow> handle now req s = Some s' \<Longrightarrow> reachable s'"

subsection \<open>Objects by reference\<close>

text \<open>
  The handlers above never write into an object that two live structures share, so
  they are embedded on values. Whether the task list of a new state is a copy of
  \<open>DEFAULT_TASKS\<close> is a question about references: here an object lives at an address
  of a heap, a property or an element holds either a value without identity (\<open>Prim\<close>:
  null, a boolean, a number, a string) or the address of an object (\<open>Ref\<close>), and a new
  object takes the next address.
\<close>

datatype slot = Prim json | Ref nat

datatype hobject = HObject "(string \<times> slot) list" | HArray "slot list"

type_synonym heap = "hobject list"

text \<open>The JSON text of a value, followed through at most \<open>depth\<close> references.\<close>

fun readJson :: "nat \<Rightarrow> heap \<Rightarrow> slot \<Rightarrow> json option" where
  "readJson depth h (Prim v) = Some v"
| "readJson 0 h (Ref a) = None"
| "readJson (Suc depth) h (Ref a) =
     (if a < length h then
        (case h ! a of
           HObject kvs \<Rightarrow>
             map_option JObj
               (those (map (\<lambda>(k, v). map_option (Pair k) (readJson depth h v)) kvs))
         | HArray xs \<Rightarrow> map_option JArr (those (map (readJson depth h) xs)))
      else None)"

text \<open>
  The heap after the module is loaded: the six task records, then the array
  \<open>DEFAULT_TASKS\<close> that holds their addresses.
\<close>

definition DEFAULT_TASKS_addr :: nat where
  "DEFAULT_TASKS_addr = length DEFAULT_TASKS"

definition moduleHeap :: heap where
  "moduleHeap =
     map (\<lambda>task. HObject (map (\<lambda>(k, v). (k, Prim v)) (ownProperties task))) DEFAULT_TASKS @
     [HArray (map Ref [0..<length DEFAULT_TASKS])]"

text \<open>The elements of the array at an address.\<close>

definition elementsAt :: "heap \<Rightarrow> nat \<Rightarrow> slot list" where
  "elementsAt h a =
     (if a < length h then (case h ! a of HArray xs \<Rightarrow> xs | HObject kvs \<Rightarrow> []) else [])"

text \<open>
  \<open>createDefaultHubState(visitorId)\<close> on the heap: every object and array literal is a new
  object, \<open>[...DEFAULT_TASKS]\<close> is a new array with the elements of \<open>DEFAULT_TASKS\<close>. The
  result is the address of the state.
\<close>

definition createDefaultHubStateRef :: "string \<Rightarrow> string \<Rightarrow> heap \<Rightarrow> nat \<times> heap" where
  "createDefaultHubStateRef t visitorId h =
     (let n = length h in
      (n + 6,
       h @
       [HObject [(''lights'', Prim JNull), (''thermostat'', Prim JNull),
                 (''reminder'', Prim JNull)],
        HArray [],
        HObject [(''microphoneEnabled'', Prim (JBool True)),
                 (''allowVoiceHistory'', Prim (JBool True)),
                 (''lastHistoryDelete'', Prim JNull)],
        HArray (elementsAt h DEFAULT_TASKS_addr),
        HArray [],
        HObject [(''lastUpdated'', Prim (JStr t)), (''lastAlexaRequest'', Prim JNull),
                 (''isAlexaUser'', Prim (JBool (startsWith visitorId ''alexa-user-'')))],
        HObject [(''visitorId'', Prim (JStr visitorId)),
                 (''odisplayName'', Prim JNull),
                 (''activeTile'', Prim (JStr ''home'')),
                 (''lastAction'', Prim (JStr ''NONE'')),
                 (''profile'', Prim (JStr ''default'')),
                 (''routineResult'', Ref n),
                 (''groceryList'', Ref (n + 1)),
                 (''pendingItem'', Prim JNull),
                 (''privacy'', Ref (n + 2)),
                 (''tasks'', Ref (n + 3)),
                 (''customTasks'', Ref (n + 4)),
                 (''debugInfo'', Ref (n + 5))]]))"

text \<open>The object a property or an array element refers to.\<close>

definition propertyRef :: "heap \<Rightarrow> nat \<Rightarrow> string \<Rightarrow> nat option" where
  "propertyRef h a key =
     (if a < length h then
        (case h ! a of
           HObject kvs \<Rightarrow> (case map_of kvs key of Some (Ref b) \<Rightarrow> Some b | _ \<Rightarrow> None)
         | HArray xs \<Rightarrow> None)
      else None)"

definition elementRef :: "heap \<Rightarrow> nat \<Rightarrow> nat \<Rightarrow> nat option" where
  "elementRef h a i =
     (case elementsAt h a of xs \<Rightarrow>
        if i < length xs then (case xs ! i of Ref b \<Rightarrow> Some b | Prim v \<Rightarrow> None) else None)"

text \<open>\<open>obj.key = v\<close> on the object at an address.\<close>

fun setSlot :: "(string \<times> slot) list \<Rightarrow> string \<Rightarrow> slot \<Rightarrow> (string \<times> slot) list" where
  "setSlot [] key v = [(key, v)]"
| "setSlot ((k, w) # rest) key v =
     (if k = key then (k, v) # rest else (k, w) # setSlot rest key v)"

definition writeProperty :: "nat \<Rightarrow> string \<Rightarrow> slot \<Rightarrow> heap \<Rightarrow> heap" where
  "writeProperty a key v h =
     (if a < length h then
        (case h ! a of
           HObject kvs \<Rightarrow> h[a := HObject (setSlot kvs key v)]
         | HArray xs \<Rightarrow> h)
      else h)"

text \<open>\<open>state[listKey][i][key] = v\<close> for the state at address \<open>a\<close>.\<close>

definition writeElementProperty ::
  "heap \<Rightarrow> nat \<Rightarrow> string \<Rightarrow> nat \<Rightarrow> string \<Rightarrow> slot \<Rightarrow> heap" where
  "writeElementProperty h a listKey i key v =
     (case propertyRef h a listKey of
        Some arr \<Rightarrow>
          (case elementRef h arr i of
             Some obj \<Rightarrow> writeProperty obj key v h
           | None \<Rightarrow> h)
      | None \<Rightarrow> h)"

subsection \<open>Auxiliary notions\<close>

text \<open>
  A value none of whose objects, at any depth, has the key \<open>__proto__\<close>.
\<close>

fun noProtoKey :: "json \<Rightarrow> bool" where
  "noProtoKey (JObj kvs) = list_all (\<lambda>(k, v). k \<noteq> ''__proto__'' \<and> noProtoKey v) kvs"
| "noProtoKey (JArr xs) = list_all noProtoKey xs"
| "noProtoKey v = True"

text \<open>The number a string of decimal digits stands for.\<close>

definition digitsToNumber :: "string \<Rightarrow> nat" where
  "digitsToNumber cs = foldl (\<lambda>acc c. 10 * acc + ((of_char c :: nat) - 48)) 0 cs"

text \<open>
  The store a handler leaves when it answers, or the store at the point where the
  embedding stops following it.
\<close>

fun storeOf :: "outcome \<Rightarrow> server" where
  "storeOf (Answer r s) = s"
| "storeOf (Beyond s) = s"

text \<open>
  A sequence of requests, each with its clock: the store after the last one, \<open>None\<close>
  when one of them ends in \<open>Beyond\<close>.
\<close>

fun handleAll :: "(clock \<times> request) list \<Rightarrow> server \<Rightarrow> server option" where
  "handleAll [] s = Some s"
| "handleAll ((now, req) # rest) s =
     (case handle now req s of None \<Rightarrow> None | Some s1 \<Rightarrow> handleAll rest s1)"

text \<open>Every identifier the mapping holds is a non-empty string.\<close>

definition mappedIdsNonEmpty :: "server \<Rightarrow> bool" where
  "mappedIdsNonEmpty s = (\<forall>x v. alexaUserToVisitor s x = Some v \<longrightarrow> v \<noteq> [])"

text \<open>Every visitor identifier with a registered profile has a hub state.\<close>

definition profilesHaveState :: "server \<Rightarrow> bool" where
  "profilesHaveState s = (dom (registeredProfiles s) \<subseteq> dom (hubStateByVisitorId s))"



text \<open>A clock that reads \<open>t\<close> at every call.\<close>

definition clockAt :: "string \<Rightarrow> clock" where
  "clockAt t = (\<lambda>i. t)"

section \<open>Properties\<close>

subsection \<open>Recursive merge\<close>

lemma map_of_setProp:
  "map_of (setProp obj key v) k = (if k = key then Some v else map_of obj k)"
  by (induction obj key v rule: setProp.induct) auto

lemma plain_object_test:
  "(v \<noteq> JNull \<and> typeof v = ''object'' \<and> \<not> isArray v) = isRecordValue v"
  by (cases v) simp_all

lemma lookupProp_test:
  assumes "k \<noteq> ''__proto__'' \<or> map_of target k \<noteq> None"
  shows "(lookupProp (Record target) k \<noteq> JsonValue JNull \<and>
    typeofJs (lookupProp (Record target) k) = ''object'' \<and>
    \<not> isArrayJs (lookupProp (Record target) k)) = isRecordValue (getProp target k)"
proof (cases "map_of target k")
  case None
  then show ?thesis using assms by (auto simp: getProp_def)
next
  case (Some v)
  then show ?thesis using plain_object_test [of v] by (simp add: getProp_def)
qed

lemma lookupProp_asTarget:
  "isRecordValue (getProp target k) \<Longrightarrow>
   asTarget (lookupProp (Record target) k) = Record (ownProperties (getProp target k))"
  by (cases "map_of target k") (auto simp: getProp_def)

lemma assignKey_Merged:
  "assignKey result key v = Merged r \<Longrightarrow>
   (map_of result key \<noteq> None \<or> key \<noteq> ''__proto__'') \<and> r = setProp result key v \<or>
   map_of result key = None \<and> key = ''__proto__'' \<and> r = result"
  by (auto simp: assignKey_def split: if_splits)

lemma map_of_mergeEntries:
  "distinct (map fst entries) \<Longrightarrow> mergeEntries target entries result = Merged m \<Longrightarrow>
   k \<noteq> ''__proto__'' \<or> map_of result k \<noteq> None \<Longrightarrow>
   map_of m k =
     (case map_of entries k of
        None \<Rightarrow> map_of result k
      | Some v \<Rightarrow>
          if v = JUndefined then map_of result k
          else if v \<noteq> JNull \<and> typeof v = ''object'' \<and> \<not> isArray v \<and>
                  lookupProp target k \<noteq> JsonValue JNull \<and>
                  typeofJs (lookupProp target k) = ''object'' \<and>
                  \<not> isArrayJs (lookupProp target k)
            then (case deepMerge (asTarget (lookupProp target k)) v of
                    Merged m' \<Rightarrow> Some (JObj m') | Reparented \<Rightarrow> None)
          else Some v)"
proof (induction entries arbitrary: result)
  case Nil
  then show ?case by simp
next
  case (Cons e entries)
  obtain key v where e: "e = (key, v)" by (cases e)
  from Cons.prems e have d: "distinct (map fst entries)" and nk: "map_of entries key = None"
    by (auto simp: map_of_eq_None_iff)
  let ?c = "v \<noteq> JNull \<and> typeof v = ''object'' \<and> \<not> isArray v \<and>
      lookupProp target key \<noteq> JsonValue JNull \<and>
      typeofJs (lookupProp target key) = ''object'' \<and>
      \<not> isArrayJs (lookupProp target key)"
  show ?case
  proof (cases "v = JUndefined")
    case True
    with Cons.prems e have "mergeEntries target entries result = Merged m" by simp
    from Cons.IH [OF d this Cons.prems(3)] True e nk show ?thesis
      by (auto split: option.splits)
  next
    case False
    define w where "w = (if ?c then (case deepMerge (asTarget (lookupProp target key)) v of
        Merged m' \<Rightarrow> Some (JObj m') | Reparented \<Rightarrow> None) else Some v)"
    from Cons.prems(2) e False obtain x r where
      wx: "w = Some x" and a: "assignKey result key x = Merged r" and
      r: "mergeEntries target entries r = Merged m"
      unfolding w_def
      by (auto split: if_splits merged.splits simp del: typeof.simps isArray.simps)
    have keep: "k \<noteq> ''__proto__'' \<or> map_of r k \<noteq> None"
      using Cons.prems(3) assignKey_Merged [OF a] by (auto simp: map_of_setProp)
    note ih = Cons.IH [OF d r keep]
    show ?thesis
    proof (cases "k = key")
      case True
      have "map_of r key = Some x"
        using assignKey_Merged [OF a] Cons.prems(3) True by (auto simp: map_of_setProp)
      then show ?thesis
        using ih nk e True False wx unfolding w_def
        by (auto split: option.splits merged.splits if_splits
            simp del: typeof.simps isArray.simps)
    next
      case ne: False
      have "map_of r k = map_of result k"
        using assignKey_Merged [OF a] ne by (auto simp: map_of_setProp)
      then show ?thesis using ih e ne by (simp split: option.splits)
    qed
  qed
qed

lemma digit_not_underscore: "d < 10 \<Longrightarrow> char_of (48 + d :: nat) \<noteq> CHR ''_''"
proof
  assume d: "d < 10" and e: "char_of (48 + d) = CHR ''_''"
  have "(of_char (char_of (48 + d)) :: nat) = of_char CHR ''_''" using e by simp
  then show False using d by simp
qed

lemma numberToString_no_underscore: "CHR ''_'' \<notin> set (numberToString n)"
proof (induction n rule: numberToString.induct)
  case (1 n)
  show ?case
  proof (cases "n < 10")
    case True
    then show ?thesis
      using digit_not_underscore [of n] by (subst numberToString.simps) auto
  next
    case False
    have "n mod 10 < 10" by simp
    then have "char_of (48 + n mod 10) \<noteq> CHR ''_''" by (rule digit_not_underscore)
    then show ?thesis
      using 1 False by (subst numberToString.simps) auto
  qed
qed

lemma numberToString_not_proto: "numberToString n \<noteq> ''__proto__''"
  using numberToString_no_underscore [of n] by auto

lemma ownEntries_noProtoKey:
  assumes "noProtoKey source" and "(k, v) \<in> set (ownEntries source)"
  shows "k \<noteq> ''__proto__'' \<and> noProtoKey v"
proof (cases source)
  case (JObj kvs)
  then show ?thesis using assms by (auto simp: list_all_iff)
next
  case (JArr xs)
  then have "k \<in> set (map numberToString [0..<length xs])" and "v \<in> set xs"
    using assms(2) by (auto dest: set_zip_leftD set_zip_rightD)
  then show ?thesis using assms(1) JArr numberToString_not_proto by (auto simp: list_all_iff)
next
  case (JStr s)
  then have "k \<in> set (map numberToString [0..<length s])" and
    "v \<in> set (map (\<lambda>c. JStr [c]) s)"
    using assms(2) by (auto dest: set_zip_leftD set_zip_rightD)
  then show ?thesis using numberToString_not_proto by auto
qed (use assms in auto)

lemma merged_without_proto:
  "noProtoKey source \<longrightarrow> (\<exists>m. deepMerge target source = Merged m)"
  "(\<forall>(k, v)\<in>set entries. k \<noteq> ''__proto__'' \<and> noProtoKey v) \<longrightarrow>
     (\<exists>m. mergeEntries target entries result = Merged m)"
proof (induction target source and target entries result rule: deepMerge_mergeEntries.induct)
  case (1 target source)
  show ?case
  proof
    assume n: "noProtoKey source"
    then have "\<forall>(k, v)\<in>set (ownEntries source). k \<noteq> ''__proto__'' \<and> noProtoKey v"
      using ownEntries_noProtoKey by blast
    then show "\<exists>m. deepMerge target source = Merged m" using 1 by simp
  qed
next
  case (2 target result)
  show ?case by simp
next
  case (3 target key v rest result)
  show ?case
  proof
    assume a: "\<forall>(k, v)\<in>set ((key, v) # rest). k \<noteq> ''__proto__'' \<and> noProtoKey v"
    then have k: "key \<noteq> ''__proto__''" and nv: "noProtoKey v" and
      r: "\<forall>(k, v)\<in>set rest. k \<noteq> ''__proto__'' \<and> noProtoKey v"
      by auto
    have ak: "\<And>w. assignKey result key w = Merged (setProp result key w)"
      using k by (simp add: assignKey_def)
    show "\<exists>m. mergeEntries target ((key, v) # rest) result = Merged m"
    proof (cases "v = JUndefined")
      case True
      then show ?thesis using 3(4) r by simp
    next
      case u: False
      let ?c = "v \<noteq> JNull \<and> typeof v = ''object'' \<and> \<not> isArray v \<and>
        lookupProp target key \<noteq> JsonValue JNull \<and>
        typeofJs (lookupProp target key) = ''object'' \<and>
        \<not> isArrayJs (lookupProp target key)"
      show ?thesis
      proof (cases ?c)
        case True
        then obtain m' where m': "deepMerge (asTarget (lookupProp target key)) v = Merged m'"
          using 3(1) u nv by blast
        have "\<exists>m. mergeEntries target rest (setProp result key (JObj m')) = Merged m"
          using 3(2) [OF u True m' ak] r by blast
        then show ?thesis
          using u True m' ak by (auto simp del: deepMerge.simps typeof.simps isArray.simps)
      next
        case False
        have "\<exists>m. mergeEntries target rest (setProp result key v) = Merged m"
          using 3(3) [OF u False ak] r by blast
        then show ?thesis
          using u False ak by (auto simp del: deepMerge.simps typeof.simps isArray.simps)
      qed
    qed
  qed
qed

lemma mergeEntries_nested:
  "mergeEntries target entries result = Merged m \<Longrightarrow> (k, v) \<in> set entries \<Longrightarrow>
   v \<noteq> JUndefined \<Longrightarrow>
   v \<noteq> JNull \<and> typeof v = ''object'' \<and> \<not> isArray v \<and>
     lookupProp target k \<noteq> JsonValue JNull \<and>
     typeofJs (lookupProp target k) = ''object'' \<and>
     \<not> isArrayJs (lookupProp target k) \<Longrightarrow>
   \<exists>m'. deepMerge (asTarget (lookupProp target k)) v = Merged m'"
proof (induction entries arbitrary: result)
  case Nil
  then show ?case by simp
next
  case (Cons e entries)
  obtain key w where e: "e = (key, w)" by (cases e)
  show ?case
  proof (cases "(k, v) = e")
    case True
    then show ?thesis
      using Cons.prems e
      by (auto split: merged.splits simp del: deepMerge.simps typeof.simps isArray.simps)
  next
    case False
    then have i: "(k, v) \<in> set entries" using Cons.prems(2) by simp
    from Cons.prems(1) e obtain r where "mergeEntries target entries r = Merged m"
      by (auto split: if_splits merged.splits
          simp del: deepMerge.simps typeof.simps isArray.simps)
    from Cons.IH [OF this i Cons.prems(3) Cons.prems(4)] show ?thesis .
  qed
qed

text \<open>
  C1. For an update object with distinct keys, when the merge returns an object that
  still has the prototype of every object: at every key other than \<open>__proto__\<close> (and at
  \<open>__proto__\<close> too when the existing state has it as an own property), a key that the
  update lacks, or holds as \<open>undefined\<close>, keeps what the existing state has; where the
  update and the existing state both hold a record, the result holds the merge of the
  two; in every other case the result holds the update's value. An update with no key
  \<open>__proto__\<close> at any depth always gives such a result. The two examples of the spec
  come out as stated. At the key \<open>__proto__\<close> the rule fails: the update
  \<open>{"__proto__": {"x": 1}}\<close> replaces the prototype of the result instead of adding a
  key, and the update \<open>{"__proto__": "x"}\<close> is dropped, so the result has no such key.
\<close>

theorem deepMerge_rule:
  "(distinct (map fst source) \<and> deepMerge (Record target) (JObj source) = Merged m \<and>
    (key \<noteq> ''__proto__'' \<or> map_of target key \<noteq> None) \<longrightarrow>
      (case map_of source key of
         None \<Rightarrow> map_of m key = map_of target key
       | Some v \<Rightarrow>
           if v = JUndefined then map_of m key = map_of target key
           else if isRecordValue v \<and> isRecordValue (getProp target key)
             then (\<exists>m'. deepMerge (Record (ownProperties (getProp target key))) v = Merged m' \<and>
                        map_of m key = Some (JObj m'))
           else map_of m key = Some v)) \<and>
   (noProtoKey (JObj source) \<longrightarrow> (\<exists>m. deepMerge (Record target) (JObj source) = Merged m)) \<and>
   deepMerge (Record [(''a'', JNum 1), (''b'', JArr [JNum 1, JNum 2])])
       (JObj [(''a'', JNum 2), (''b'', JArr [JNum 3])]) =
     Merged [(''a'', JNum 2), (''b'', JArr [JNum 3])] \<and>
   deepMerge
       (Record [(''privacy'',
         JObj [(''microphoneEnabled'', JBool True), (''allowVoiceHistory'', JBool True)])])
       (JObj [(''privacy'', JObj [(''microphoneEnabled'', JBool False)])]) =
     Merged [(''privacy'',
       JObj [(''microphoneEnabled'', JBool False), (''allowVoiceHistory'', JBool True)])] \<and>
   deepMerge (Record [(''a'', JNum 1)]) (JObj [(''__proto__'', JObj [(''x'', JNum 1)])]) =
     Reparented \<and>
   deepMerge (Record [(''a'', JNum 1)]) (JObj [(''__proto__'', JStr ''x'')]) =
     Merged [(''a'', JNum 1)]"
proof (intro conjI impI)
  assume a: "distinct (map fst source) \<and> deepMerge (Record target) (JObj source) = Merged m \<and>
    (key \<noteq> ''__proto__'' \<or> map_of target key \<noteq> None)"
  then have me: "mergeEntries (Record target) source target = Merged m" by simp
  note c = map_of_mergeEntries [OF _ me, of key] lookupProp_test [of key target]
  show "case map_of source key of
         None \<Rightarrow> map_of m key = map_of target key
       | Some v \<Rightarrow>
           if v = JUndefined then map_of m key = map_of target key
           else if isRecordValue v \<and> isRecordValue (getProp target key)
             then (\<exists>m'. deepMerge (Record (ownProperties (getProp target key))) v = Merged m' \<and>
                        map_of m key = Some (JObj m'))
           else map_of m key = Some v"
  proof (cases "map_of source key")
    case None
    then show ?thesis using a c by simp
  next
    case (Some v)
    show ?thesis
    proof (cases "v \<noteq> JUndefined \<and> isRecordValue v \<and> isRecordValue (getProp target key)")
      case True
      then have t: "asTarget (lookupProp (Record target) key) =
          Record (ownProperties (getProp target key))"
        by (intro lookupProp_asTarget) blast
      have "map_of m key =
          (case deepMerge (Record (ownProperties (getProp target key))) v of
             Merged m' \<Rightarrow> Some (JObj m') | Reparented \<Rightarrow> None)"
        using a c Some True plain_object_test [of v] unfolding t
        by (simp del: deepMerge.simps typeof.simps isArray.simps)
      moreover have "\<exists>m'. deepMerge (Record (ownProperties (getProp target key))) v = Merged m'"
        using mergeEntries_nested [OF me map_of_SomeD [OF Some], unfolded t]
          a c(2) True plain_object_test [of v]
        by (auto simp del: deepMerge.simps typeof.simps isArray.simps)
      ultimately show ?thesis
        using Some True by (auto simp del: deepMerge.simps split: merged.splits)
    next
      case False
      then show ?thesis
        using a c Some plain_object_test [of v]
        by (auto simp del: deepMerge.simps typeof.simps isArray.simps)
    qed
  qed
next
  assume "noProtoKey (JObj source)"
  then show "\<exists>m. deepMerge (Record target) (JObj source) = Merged m"
    using merged_without_proto(1) by blast
next
  show "deepMerge (Record [(''a'', JNum 1), (''b'', JArr [JNum 1, JNum 2])])
       (JObj [(''a'', JNum 2), (''b'', JArr [JNum 3])]) =
     Merged [(''a'', JNum 2), (''b'', JArr [JNum 3])]"
    by code_simp
next
  show "deepMerge
       (Record [(''privacy'',
         JObj [(''microphoneEnabled'', JBool True), (''allowVoiceHistory'', JBool True)])])
       (JObj [(''privacy'', JObj [(''microphoneEnabled'', JBool False)])]) =
     Merged [(''privacy'',
       JObj [(''microphoneEnabled'', JBool False), (''allowVoiceHistory'', JBool True)])]"
    by code_simp
next
  show "deepMerge (Record [(''a'', JNum 1)]) (JObj [(''__proto__'', JObj [(''x'', JNum 1)])]) =
     Reparented"
    by code_simp
next
  show "deepMerge (Record [(''a'', JNum 1)]) (JObj [(''__proto__'', JStr ''x'')]) =
     Merged [(''a'', JNum 1)]"
    by code_simp
qed

theorem deepMerge_rule_witness:
  "distinct (map fst [(''privacy'', JObj [(''microphoneEnabled'', JBool False)]),
                      (''pendingItem'', JUndefined), (''groceryList'', JArr [JStr ''milk''])]) \<and>
   noProtoKey (JObj [(''privacy'', JObj [(''microphoneEnabled'', JBool False)]),
                     (''pendingItem'', JUndefined), (''groceryList'', JArr [JStr ''milk''])]) \<and>
   deepMerge
     (Record [(''privacy'',
          JObj [(''microphoneEnabled'', JBool True), (''allowVoiceHistory'', JBool True)]),
         (''pendingItem'', JStr ''eggs''), (''groceryList'', JArr [JStr ''tea''])])
     (JObj [(''privacy'', JObj [(''microphoneEnabled'', JBool False)]),
            (''pendingItem'', JUndefined), (''groceryList'', JArr [JStr ''milk''])]) =
   Merged [(''privacy'',
          JObj [(''microphoneEnabled'', JBool False), (''allowVoiceHistory'', JBool True)]),
         (''pendingItem'', JStr ''eggs''), (''groceryList'', JArr [JStr ''milk''])] \<and>
   (\<exists>m'. deepMerge
          (Record [(''microphoneEnabled'', JBool True), (''allowVoiceHistory'', JBool True)])
          (JObj [(''microphoneEnabled'', JBool False)]) = Merged m' \<and>
        map_of [(''privacy'',
            JObj [(''microphoneEnabled'', JBool False), (''allowVoiceHistory'', JBool True)]),
           (''pendingItem'', JStr ''eggs''), (''groceryList'', JArr [JStr ''milk''])]
          ''privacy'' = Some (JObj m'))"
proof -
  have m: "deepMerge
     (Record [(''privacy'',
          JObj [(''microphoneEnabled'', JBool True), (''allowVoiceHistory'', JBool True)]),
         (''pendingItem'', JStr ''eggs''), (''groceryList'', JArr [JStr ''tea''])])
     (JObj [(''privacy'', JObj [(''microphoneEnabled'', JBool False)]),
            (''pendingItem'', JUndefined), (''groceryList'', JArr [JStr ''milk''])]) =
   Merged [(''privacy'',
          JObj [(''microphoneEnabled'', JBool False), (''allowVoiceHistory'', JBool True)]),
         (''pendingItem'', JStr ''eggs''), (''groceryList'', JArr [JStr ''milk''])]"
    by code_simp
  show ?thesis
    using m deepMerge_rule
      [of "[(''privacy'', JObj [(''microphoneEnabled'', JBool False)]),
            (''pendingItem'', JUndefined), (''groceryList'', JArr [JStr ''milk''])]"
          "[(''privacy'',
            JObj [(''microphoneEnabled'', JBool True), (''allowVoiceHistory'', JBool True)]),
           (''pendingItem'', JStr ''eggs''), (''groceryList'', JArr [JStr ''tea''])]"
          "[(''privacy'',
            JObj [(''microphoneEnabled'', JBool False), (''allowVoiceHistory'', JBool True)]),
           (''pendingItem'', JStr ''eggs''), (''groceryList'', JArr [JStr ''milk''])]"
          "''privacy''"]
    by (simp add: getProp_def del: deepMerge.simps)
qed

subsection \<open>Identifier resolution\<close>

lemma digitsToNumber_snoc:
  "digitsToNumber (cs @ [c]) = 10 * digitsToNumber cs + ((of_char c :: nat) - 48)"
  by (simp add: digitsToNumber_def)

lemma digitsToNumber_numberToString: "digitsToNumber (numberToString n) = n"
proof (induction n rule: numberToString.induct)
  case (1 n)
  show ?case
  proof (cases "n < 10")
    case True
    then show ?thesis
      by (subst numberToString.simps) (simp add: digitsToNumber_def)
  next
    case False
    have m: "n mod 10 < 10" by simp
    have "digitsToNumber (numberToString n) =
        10 * digitsToNumber (numberToString (n div 10)) + n mod 10"
      using False m by (subst numberToString.simps) (simp add: digitsToNumber_snoc)
    then show ?thesis using 1 False by simp
  qed
qed

lemma numberToString_inj: "numberToString m = numberToString n \<Longrightarrow> m = n"
  by (metis digitsToNumber_numberToString)

lemma numberToString_not_empty: "numberToString n \<noteq> []"
  by (subst numberToString.simps) simp

lemma getVisitorId_other:
  "\<not> startsWith x ''amzn1.'' \<Longrightarrow> getVisitorId x s = (x, s)"
  by (simp add: getVisitorId_def)

lemma getVisitorId_again: "getVisitorId x (snd (getVisitorId x s)) = getVisitorId x s"
  by (auto simp: getVisitorId_def split: option.splits)

lemma getVisitorId_fresh:
  "startsWith x ''amzn1.'' \<Longrightarrow> alexaUserToVisitor s x = None \<Longrightarrow>
   getVisitorId x s =
     (''alexa-user-'' @ numberToString (visitorCounter s + 1),
      s\<lparr>visitorCounter := visitorCounter s + 1,
        alexaUserToVisitor := (alexaUserToVisitor s)
          (x \<mapsto> ''alexa-user-'' @ numberToString (visitorCounter s + 1))\<rparr>)"
  by (simp add: getVisitorId_def)

lemma upt_first: "[a ..< a + Suc n] = a # [Suc a ..< Suc a + n]"
  by (simp add: upt_conv_Cons)

lemma getVisitorIds_fresh:
  "distinct xs \<Longrightarrow> \<forall>x\<in>set xs. startsWith x ''amzn1.'' \<and> alexaUserToVisitor s x = None \<Longrightarrow>
   fst (getVisitorIds xs s) =
     map (\<lambda>k. ''alexa-user-'' @ numberToString k)
       [visitorCounter s + 1 ..< visitorCounter s + 1 + length xs]"
proof (induction xs arbitrary: s)
  case Nil
  then show ?case by simp
next
  case (Cons x xs)
  let ?s1 = "s\<lparr>visitorCounter := visitorCounter s + 1,
        alexaUserToVisitor := (alexaUserToVisitor s)
          (x \<mapsto> ''alexa-user-'' @ numberToString (visitorCounter s + 1))\<rparr>"
  from Cons.prems have g: "getVisitorId x s =
      (''alexa-user-'' @ numberToString (visitorCounter s + 1), ?s1)"
    by (simp add: getVisitorId_fresh)
  from Cons.prems have d: "distinct xs" and
    u: "\<forall>y\<in>set xs. startsWith y ''amzn1.'' \<and> alexaUserToVisitor ?s1 y = None"
    by auto
  have ih: "fst (getVisitorIds xs ?s1) =
      map (\<lambda>k. ''alexa-user-'' @ numberToString k)
        [visitorCounter ?s1 + 1 ..< visitorCounter ?s1 + 1 + length xs]"
    by (rule Cons.IH [OF d u])
  have "[visitorCounter s + 1 ..< visitorCounter s + 1 + length (x # xs)] =
      (visitorCounter s + 1) # [visitorCounter ?s1 + 1 ..< visitorCounter ?s1 + 1 + length xs]"
    using upt_first [of "visitorCounter s + 1" "length xs"] by simp
  then show ?case using g ih by (simp add: case_prod_beta)
qed

lemma visitor_names_distinct:
  "distinct (map (\<lambda>k. ''alexa-user-'' @ numberToString k) [a..<b])"
  by (simp add: distinct_map inj_on_def numberToString_inj)

lemma getVisitorId_frame:
  "getVisitorId x s = (v, s1) \<Longrightarrow>
   hubStateByVisitorId s1 = hubStateByVisitorId s \<and>
   registeredProfiles s1 = registeredProfiles s"
  by (auto simp: getVisitorId_def split: if_splits option.splits)

lemma getVisitorId_keeps:
  "getVisitorId x s = (v, s1) \<Longrightarrow> alexaUserToVisitor s y = Some w \<Longrightarrow> w \<noteq> [] \<Longrightarrow>
   alexaUserToVisitor s1 y = Some w"
  by (auto simp: getVisitorId_def split: if_splits option.splits)

lemma getVisitorId_nonempty:
  assumes "getVisitorId x s = (v, s1)" and "mappedIdsNonEmpty s"
  shows "mappedIdsNonEmpty s1"
proof (cases "startsWith x ''amzn1.'' \<and> alexaUserToVisitor s x = None")
  case True
  then have "snd (getVisitorId x s) = s\<lparr>visitorCounter := visitorCounter s + 1,
        alexaUserToVisitor := (alexaUserToVisitor s)
          (x \<mapsto> ''alexa-user-'' @ numberToString (visitorCounter s + 1))\<rparr>"
    by (simp add: getVisitorId_fresh)
  moreover have "s1 = snd (getVisitorId x s)" using assms(1) by simp
  ultimately show ?thesis using assms(2) by (simp add: mappedIdsNonEmpty_def)
next
  case False
  moreover have "s1 = snd (getVisitorId x s)" using assms(1) by simp
  ultimately have "s1 = s"
    using assms(2) by (auto simp: getVisitorId_def mappedIdsNonEmpty_def split: option.splits)
  then show ?thesis using assms(2) by simp
qed

lemma getOrCreateHubState_frame:
  "alexaUserToVisitor (snd (getOrCreateHubState t v s)) = alexaUserToVisitor s"
  "visitorCounter (snd (getOrCreateHubState t v s)) = visitorCounter s"
  "registeredProfiles (snd (getOrCreateHubState t v s)) = registeredProfiles s"
  by (auto simp: getOrCreateHubState_def split: option.splits)

lemma getOrCreateHubState_StateObject:
  "getOrCreateHubState t v s = (StateObject h, s') \<Longrightarrow>
   hubStateByVisitorId s' = (hubStateByVisitorId s)(v \<mapsto> h)"
  by (auto simp: getOrCreateHubState_def split: option.splits if_splits)

lemma getOrCreateHubState_InheritedObject:
  "getOrCreateHubState t v s = (InheritedObject n, s') \<Longrightarrow>
   s' = s \<and> n = v \<and> v \<in> set objectPrototypeNames \<and> hubStateByVisitorId s v = None"
  by (auto simp: getOrCreateHubState_def split: option.splits if_splits)

lemma storeUpdatedState_frame:
  "alexaUserToVisitor (storeOf (storeUpdatedState t3 t4 uid v st s)) = alexaUserToVisitor s"
  "visitorCounter (storeOf (storeUpdatedState t3 t4 uid v st s)) = visitorCounter s"
  by (auto simp: storeUpdatedState_def Let_def assignStore_def split: option.splits)

lemma storeUpdatedState_Answer:
  "storeUpdatedState t3 t4 uid v st s = Answer r s' \<Longrightarrow>
   dom (registeredProfiles s') = dom (registeredProfiles s) \<and>
   dom (hubStateByVisitorId s') = insert v (dom (hubStateByVisitorId s))"
  by (auto simp: storeUpdatedState_def Let_def assignStore_def
      split: option.splits if_splits)

lemma postHubState_mapping:
  "alexaUserToVisitor (storeOf (postHubState now userId state displayName s)) =
     (case userId of
        JStr uid \<Rightarrow>
          if uid \<noteq> [] then alexaUserToVisitor (snd (getVisitorId uid s))
          else alexaUserToVisitor s
      | _ \<Rightarrow> alexaUserToVisitor s)"
proof (cases userId)
  case (JStr uid)
  obtain v s1 where g: "getVisitorId uid s = (v, s1)" by (cases "getVisitorId uid s")
  obtain h s2 where o: "getOrCreateHubState (now 0) v s1 = (h, s2)"
    by (cases "getOrCreateHubState (now 0) v s1")
  have m: "alexaUserToVisitor s2 = alexaUserToVisitor s1"
    using getOrCreateHubState_frame(1) [of "now 0" v s1] o by simp
  show ?thesis
    using JStr g o m
    by (auto simp: postHubState_def assignStore_def storeUpdatedState_frame
        simp del: deepMerge.simps
        split: hubStateRef.splits merged.splits json.splits option.splits)
qed (simp_all add: postHubState_def)

lemma getHubState_mapping:
  "alexaUserToVisitor (storeOf (getHubState now userId s)) =
     (if userId \<noteq> [] then alexaUserToVisitor (snd (getVisitorId userId s))
      else alexaUserToVisitor s)"
proof -
  obtain v s1 where g: "getVisitorId userId s = (v, s1)" by (cases "getVisitorId userId s")
  obtain h s2 where o: "getOrCreateHubState (now 0) v s1 = (h, s2)"
    by (cases "getOrCreateHubState (now 0) v s1")
  have m: "alexaUserToVisitor s2 = alexaUserToVisitor s1"
    using getOrCreateHubState_frame(1) [of "now 0" v s1] o by simp
  show ?thesis
    using g o m by (auto simp: getHubState_def split: hubStateRef.splits)
qed

lemma postProfileRegister_mapping:
  "alexaUserToVisitor (storeOf (postProfileRegister now userId nm s)) =
     (case userId of
        JStr uid \<Rightarrow>
          if uid \<noteq> [] \<and> truthy nm then alexaUserToVisitor (snd (getVisitorId uid s))
          else alexaUserToVisitor s
      | _ \<Rightarrow> alexaUserToVisitor s)"
proof (cases userId)
  case (JStr uid)
  obtain v s1 where g: "getVisitorId uid s = (v, s1)" by (cases "getVisitorId uid s")
  have m: "\<And>t profiles. alexaUserToVisitor
      (snd (getOrCreateHubState t v (s1\<lparr>registeredProfiles := profiles\<rparr>))) =
      alexaUserToVisitor s1"
    by (simp add: getOrCreateHubState_frame)
  show ?thesis
  proof (cases nm)
    case (JStr n)
    show ?thesis
    proof (cases "assignStore (registeredProfiles s1) v
        \<lparr>name = n, avatar = getAvatarForName n,
         createdAt = createdAtOr s1 v (now 0), lastSeen = now 1\<rparr>")
      case None
      then show ?thesis
        using \<open>userId = JStr uid\<close> JStr g by (simp add: postProfileRegister_def Let_def)
    next
      case (Some profiles)
      obtain h s3 where o: "getOrCreateHubState (now 2) v
          (s1\<lparr>registeredProfiles := profiles\<rparr>) = (h, s3)"
        by (cases "getOrCreateHubState (now 2) v (s1\<lparr>registeredProfiles := profiles\<rparr>)")
      have "alexaUserToVisitor s3 = alexaUserToVisitor s1"
        using m [of "now 2" profiles] o by simp
      then show ?thesis
        using \<open>userId = JStr uid\<close> JStr g Some o
        by (auto simp: postProfileRegister_def Let_def
            split: hubStateRef.splits option.splits)
    qed
  qed (use \<open>userId = JStr uid\<close> g in \<open>simp_all add: postProfileRegister_def\<close>)
qed (simp_all add: postProfileRegister_def)

lemma postHubReset_mapping:
  "alexaUserToVisitor (storeOf (postHubReset now userId s)) =
     (case userId of
        JStr uid \<Rightarrow>
          if uid \<noteq> [] then alexaUserToVisitor (snd (getVisitorId uid s))
          else alexaUserToVisitor s
      | _ \<Rightarrow> alexaUserToVisitor s)"
  by (auto simp: postHubReset_def Let_def case_prod_beta split: json.splits option.splits)

lemma storeAfter_storeOf: "storeAfter out = Some s' \<Longrightarrow> storeOf out = s'"
  by (cases out) simp_all

text \<open>What a request can do to the identifier mapping: nothing, or one resolution.\<close>

lemma handle_mapping:
  assumes "handle now req s = Some s'"
  shows "alexaUserToVisitor s' = alexaUserToVisitor s \<or>
   (\<exists>uid. alexaUserToVisitor s' = alexaUserToVisitor (snd (getVisitorId uid s)))"
proof (cases req)
  case (PostHubState userId state displayName)
  then have "storeOf (postHubState now userId state displayName s) = s'"
    using assms by (simp add: storeAfter_storeOf)
  then show ?thesis
    using postHubState_mapping [of now userId state displayName s]
    by (auto split: json.splits if_splits)
next
  case (GetHubState userId)
  then have "storeOf (getHubState now userId s) = s'"
    using assms by (simp add: storeAfter_storeOf)
  then show ?thesis
    using getHubState_mapping [of now userId s] by (auto split: if_splits)
next
  case (PostProfileRegister userId nm)
  then have "storeOf (postProfileRegister now userId nm s) = s'"
    using assms by (simp add: storeAfter_storeOf)
  then show ?thesis
    using postProfileRegister_mapping [of now userId nm s]
    by (auto split: json.splits if_splits)
next
  case (PostHubReset userId)
  then have "storeOf (postHubReset now userId s) = s'"
    using assms by (simp add: storeAfter_storeOf)
  then show ?thesis
    using postHubReset_mapping [of now userId s] by (auto split: json.splits if_splits)
qed (use assms in simp_all)

lemma mappedIdsNonEmpty_cong:
  "alexaUserToVisitor s' = alexaUserToVisitor s \<Longrightarrow> mappedIdsNonEmpty s' = mappedIdsNonEmpty s"
  by (simp add: mappedIdsNonEmpty_def)

lemma handle_nonempty:
  assumes "mappedIdsNonEmpty s" and "handle now req s = Some s'"
  shows "mappedIdsNonEmpty s'"
proof -
  consider "alexaUserToVisitor s' = alexaUserToVisitor s"
    | uid where "alexaUserToVisitor s' = alexaUserToVisitor (snd (getVisitorId uid s))"
    using handle_mapping [OF assms(2)] by blast
  then show ?thesis
  proof cases
    case 1
    then show ?thesis using assms(1) mappedIdsNonEmpty_cong by blast
  next
    case 2
    have "mappedIdsNonEmpty (snd (getVisitorId uid s))"
      using getVisitorId_nonempty [OF surjective_pairing assms(1)] .
    then show ?thesis using 2 mappedIdsNonEmpty_cong by blast
  qed
qed

lemma reachable_nonempty: "reachable s \<Longrightarrow> mappedIdsNonEmpty s"
proof (induction rule: reachable.induct)
  case reachable_init
  show ?case by (simp add: initialServer_def mappedIdsNonEmpty_def)
next
  case (reachable_step s now req s')
  then show ?case using handle_nonempty by blast
qed

lemma handle_keeps:
  assumes "mappedIdsNonEmpty s" and "alexaUserToVisitor s x = Some v"
    and "handle now req s = Some s'"
  shows "alexaUserToVisitor s' x = Some v"
proof -
  have ne: "v \<noteq> []" using assms by (auto simp: mappedIdsNonEmpty_def)
  have "\<And>uid. alexaUserToVisitor (snd (getVisitorId uid s)) x = Some v"
    using getVisitorId_keeps [OF surjective_pairing assms(2) ne] by blast
  then show ?thesis using assms(2) handle_mapping [OF assms(3)] by auto
qed

lemma handleAll_keeps:
  "mappedIdsNonEmpty s \<Longrightarrow> alexaUserToVisitor s x = Some v \<Longrightarrow>
   handleAll reqs s = Some s' \<Longrightarrow> alexaUserToVisitor s' x = Some v"
proof (induction reqs arbitrary: s)
  case Nil
  then show ?case by simp
next
  case (Cons r reqs)
  obtain now req where r: "r = (now, req)" by (cases r)
  from Cons.prems(3) r obtain s1 where h: "handle now req s = Some s1"
    and a: "handleAll reqs s1 = Some s'"
    by (auto split: option.splits)
  show ?case
    using Cons.IH [OF handle_nonempty [OF Cons.prems(1) h]
        handle_keeps [OF Cons.prems(1) Cons.prems(2) h] a] .
qed

lemma getVisitorId_known:
  "startsWith z ''amzn1.'' \<Longrightarrow> alexaUserToVisitor s z = Some v \<Longrightarrow> v \<noteq> [] \<Longrightarrow>
   getVisitorId z s = (v, s)"
  by (simp add: getVisitorId_def)

lemma getVisitorId_allocates:
  "startsWith z ''amzn1.'' \<Longrightarrow>
   alexaUserToVisitor (snd (getVisitorId z s)) z = Some (fst (getVisitorId z s)) \<and>
   fst (getVisitorId z s) \<noteq> []"
  by (auto simp: getVisitorId_def split: option.splits)

lemma getVisitorIds_keeps:
  "alexaUserToVisitor s z = Some v \<Longrightarrow> v \<noteq> [] \<Longrightarrow>
   alexaUserToVisitor (snd (getVisitorIds ys s)) z = Some v"
proof (induction ys arbitrary: s)
  case Nil
  then show ?case by simp
next
  case (Cons y ys)
  obtain w s1 where g: "getVisitorId y s = (w, s1)" by (cases "getVisitorId y s")
  have "alexaUserToVisitor s1 z = Some v"
    using getVisitorId_keeps [OF g Cons.prems] .
  from Cons.IH [OF this Cons.prems(2)] show ?case
    using g by (simp add: case_prod_beta)
qed

text \<open>
  C5. Resolution returns an identifier without the prefix \<open>amzn1.\<close> unchanged and leaves
  the store as it is. Resolving the same identifier again gives the same answer and
  changes nothing more. Resolving distinct prefixed identifiers that have no mapping
  yet gives \<open>alexa-user-(c+1)\<close>, \<open>alexa-user-(c+2)\<close>, ... in the order of the calls, where
  \<open>c\<close> is the counter before, and these are distinct. In a store the server can reach, a
  mapping once made is still there, with the same identifier, after any sequence of
  requests that the embedding follows to its end, and resolution returns it. In any
  store at all, resolving a prefixed identifier leaves it mapped to the non-empty
  identifier returned, and a mapping to a non-empty identifier is still there after
  any further sequence of resolutions: \<open>getVisitorId\<close> is the only code that writes the
  mapping.
\<close>

theorem getVisitorId_resolution:
  "(\<not> startsWith x ''amzn1.'' \<longrightarrow> getVisitorId x s = (x, s)) \<and>
   getVisitorId y (snd (getVisitorId y s)) = getVisitorId y s \<and>
   (distinct xs \<and> (\<forall>x\<in>set xs. startsWith x ''amzn1.'' \<and> alexaUserToVisitor s x = None) \<longrightarrow>
      fst (getVisitorIds xs s) =
        map (\<lambda>k. ''alexa-user-'' @ numberToString k)
          [visitorCounter s + 1 ..< visitorCounter s + 1 + length xs] \<and>
      distinct (fst (getVisitorIds xs s))) \<and>
   (reachable s' \<and> startsWith z ''amzn1.'' \<and> alexaUserToVisitor s' z = Some v \<and>
    handleAll reqs s' = Some s'' \<longrightarrow>
      alexaUserToVisitor s'' z = Some v \<and> fst (getVisitorId z s'') = v) \<and>
   (startsWith z ''amzn1.'' \<longrightarrow>
      alexaUserToVisitor (snd (getVisitorId z s)) z = Some (fst (getVisitorId z s)) \<and>
      fst (getVisitorId z s) \<noteq> []) \<and>
   (alexaUserToVisitor s' z = Some v \<and> v \<noteq> [] \<longrightarrow>
      alexaUserToVisitor (snd (getVisitorIds ys s')) z = Some v)"
proof (intro conjI impI)
  assume "\<not> startsWith x ''amzn1.''"
  then show "getVisitorId x s = (x, s)" by (rule getVisitorId_other)
next
  show "getVisitorId y (snd (getVisitorId y s)) = getVisitorId y s"
    by (rule getVisitorId_again)
next
  assume a: "distinct xs \<and> (\<forall>x\<in>set xs. startsWith x ''amzn1.'' \<and> alexaUserToVisitor s x = None)"
  then show e: "fst (getVisitorIds xs s) =
        map (\<lambda>k. ''alexa-user-'' @ numberToString k)
          [visitorCounter s + 1 ..< visitorCounter s + 1 + length xs]"
    using getVisitorIds_fresh [of xs s] by blast
  show "distinct (fst (getVisitorIds xs s))"
    unfolding e by (rule visitor_names_distinct)
next
  assume a: "reachable s' \<and> startsWith z ''amzn1.'' \<and> alexaUserToVisitor s' z = Some v \<and>
    handleAll reqs s' = Some s''"
  then have ne: "mappedIdsNonEmpty s'" by (simp add: reachable_nonempty)
  then show k: "alexaUserToVisitor s'' z = Some v"
    using a handleAll_keeps by blast
  have "v \<noteq> []" using a ne by (auto simp: mappedIdsNonEmpty_def)
  then show "fst (getVisitorId z s'') = v"
    using a k by (simp add: getVisitorId_known)
next
  assume "startsWith z ''amzn1.''"
  then show "alexaUserToVisitor (snd (getVisitorId z s)) z = Some (fst (getVisitorId z s))"
    and "fst (getVisitorId z s) \<noteq> []"
    using getVisitorId_allocates by blast+
next
  assume "alexaUserToVisitor s' z = Some v \<and> v \<noteq> []"
  then show "alexaUserToVisitor (snd (getVisitorIds ys s')) z = Some v"
    using getVisitorIds_keeps by blast
qed

theorem getVisitorId_resolution_witness:
  "\<not> startsWith ''web-1'' ''amzn1.'' \<and>
   getVisitorId ''web-1'' initialServer = (''web-1'', initialServer) \<and>
   distinct [''amzn1.a'', ''amzn1.b''] \<and>
   startsWith ''amzn1.a'' ''amzn1.'' \<and> startsWith ''amzn1.b'' ''amzn1.'' \<and>
   fst (getVisitorIds [''amzn1.a'', ''amzn1.b''] initialServer) =
     [''alexa-user-1'', ''alexa-user-2''] \<and>
   handle (clockAt ''T1'') (GetHubState ''amzn1.a'') initialServer \<noteq> None \<and>
   reachable (the (handle (clockAt ''T1'') (GetHubState ''amzn1.a'') initialServer)) \<and>
   alexaUserToVisitor
     (the (handle (clockAt ''T1'') (GetHubState ''amzn1.a'') initialServer)) ''amzn1.a'' =
     Some ''alexa-user-1'' \<and>
   handleAll [(clockAt ''T2'', PostHubReset (JStr ''amzn1.b''))]
       (the (handle (clockAt ''T1'') (GetHubState ''amzn1.a'') initialServer)) \<noteq> None \<and>
   alexaUserToVisitor
     (the (handleAll [(clockAt ''T2'', PostHubReset (JStr ''amzn1.b''))]
        (the (handle (clockAt ''T1'') (GetHubState ''amzn1.a'') initialServer))))
     ''amzn1.a'' = Some ''alexa-user-1'' \<and>
   alexaUserToVisitor
     (snd (getVisitorIds [''amzn1.b'', ''amzn1.a'']
        (the (handle (clockAt ''T1'') (GetHubState ''amzn1.a'') initialServer))))
     ''amzn1.a'' = Some ''alexa-user-1''"
proof -
  let ?s = "the (handle (clockAt ''T1'') (GetHubState ''amzn1.a'') initialServer)"
  let ?reqs = "[(clockAt ''T2'', PostHubReset (JStr ''amzn1.b''))]"
  have g: "handle (clockAt ''T1'') (GetHubState ''amzn1.a'') initialServer \<noteq> None"
    by code_simp
  then have "handle (clockAt ''T1'') (GetHubState ''amzn1.a'') initialServer = Some ?s"
    by simp
  then have r: "reachable ?s"
    by (rule reachable_step [OF reachable_init])
  have m: "alexaUserToVisitor ?s ''amzn1.a'' = Some ''alexa-user-1''"
    by code_simp
  have h: "handleAll ?reqs ?s \<noteq> None"
    by code_simp
  then have h': "handleAll ?reqs ?s = Some (the (handleAll ?reqs ?s))" by simp
  have u: "\<forall>x\<in>set [''amzn1.a'', ''amzn1.b''].
      startsWith x ''amzn1.'' \<and> alexaUserToVisitor initialServer x = None"
    by (simp add: startsWith_def initialServer_def)
  have n: "[visitorCounter initialServer + 1 ..<
      visitorCounter initialServer + 1 + length [''amzn1.a'', ''amzn1.b'']] = [1, 2]"
    by (simp add: initialServer_def upt_rec)
  have n1: "numberToString (Suc 0) = ''1''" and n2: "numberToString 2 = ''2''"
    by code_simp+
  show ?thesis
    using getVisitorId_resolution
      [of "''web-1''" initialServer "''amzn1.a''" "[''amzn1.a'', ''amzn1.b'']"
         ?s "''amzn1.a''" "''alexa-user-1''" ?reqs "the (handleAll ?reqs ?s)"
         "[''amzn1.b'', ''amzn1.a'']"]
      g r m u h h'
    unfolding n
    by (simp add: startsWith_def n1 n2 del: getVisitorIds.simps handleAll.simps handle.simps)
qed

subsection \<open>Profiles and states\<close>

lemma getVisitorId_stores:
  "hubStateByVisitorId (snd (getVisitorId x s)) = hubStateByVisitorId s"
  "registeredProfiles (snd (getVisitorId x s)) = registeredProfiles s"
  by (auto simp: getVisitorId_def split: option.splits)

lemma getOrCreateHubState_profilesHaveState:
  assumes "getOrCreateHubState t v s = (h, s')"
  shows "registeredProfiles s' = registeredProfiles s \<and>
    dom (hubStateByVisitorId s) \<subseteq> dom (hubStateByVisitorId s') \<and>
    (\<forall>st. h = StateObject st \<longrightarrow> v \<in> dom (hubStateByVisitorId s'))"
  using assms by (auto simp: getOrCreateHubState_def split: option.splits if_splits)

lemma postHubState_profilesHaveState:
  assumes "profilesHaveState s" and "postHubState now userId state displayName s = Answer r s'"
  shows "profilesHaveState s'"
proof (cases userId)
  case (JStr uid)
  show ?thesis
  proof (cases "uid = []")
    case True
    then show ?thesis using assms JStr by (simp add: postHubState_def)
  next
    case False
    obtain v s1 where g: "getVisitorId uid s = (v, s1)" by (cases "getVisitorId uid s")
    have s1: "profilesHaveState s1"
      using assms(1) getVisitorId_stores [of uid s] g by (simp add: profilesHaveState_def)
    obtain h s2 where o: "getOrCreateHubState (now 0) v s1 = (h, s2)"
      by (cases "getOrCreateHubState (now 0) v s1")
    from assms(2) JStr False g o obtain existingState where h: "h = StateObject existingState"
      by (cases h) (auto simp: postHubState_def)
    note f = getOrCreateHubState_profilesHaveState [OF o]
    have s2: "profilesHaveState s2" and v2: "v \<in> dom (hubStateByVisitorId s2)"
      using s1 f h by (auto simp: profilesHaveState_def)
    from assms(2) JStr False g o h obtain updatedState where
      m: "deepMerge (Record existingState) (if truthy state then state else JObj []) =
          Merged updatedState"
      by (cases "deepMerge (Record existingState) (if truthy state then state else JObj [])")
        (auto simp: postHubState_def simp del: deepMerge.simps)
    show ?thesis
    proof (cases "truthy displayName")
      case True
      show ?thesis
      proof (cases displayName)
        case (JStr dn)
        from assms(2) \<open>userId = JStr uid\<close> \<open>uid \<noteq> []\<close> g o h m True JStr
        obtain profiles where
          p: "assignStore (registeredProfiles s2) v
               \<lparr>name = dn, avatar = getAvatarForName dn,
                createdAt = createdAtOr s2 v (now 1), lastSeen = now 2\<rparr> = Some profiles"
          and u: "storeUpdatedState (now 3) (now 4) uid v
               (setProp updatedState ''displayName'' displayName)
               (s2\<lparr>registeredProfiles := profiles\<rparr>) = Answer r s'"
          by (auto simp: postHubState_def simp del: deepMerge.simps split: option.splits)
        have "dom profiles = insert v (dom (registeredProfiles s2))"
          using p by (auto simp: assignStore_def split: if_splits)
        then show ?thesis
          using storeUpdatedState_Answer [OF u] s2 v2 unfolding profilesHaveState_def
          by simp blast
      next
        case JUndefined
        then show ?thesis using True by simp
      next
        case JNull
        then show ?thesis using True by simp
      next
        case (JBool b)
        then have "s' = s2"
          using assms(2) \<open>userId = JStr uid\<close> \<open>uid \<noteq> []\<close> g o h m True
          by (auto simp: postHubState_def simp del: deepMerge.simps)
        then show ?thesis using s2 by simp
      next
        case (JNum k)
        then have "s' = s2"
          using assms(2) \<open>userId = JStr uid\<close> \<open>uid \<noteq> []\<close> g o h m True
          by (auto simp: postHubState_def simp del: deepMerge.simps)
        then show ?thesis using s2 by simp
      next
        case (JArr xs)
        then have "s' = s2"
          using assms(2) \<open>userId = JStr uid\<close> \<open>uid \<noteq> []\<close> g o h m True
          by (auto simp: postHubState_def simp del: deepMerge.simps)
        then show ?thesis using s2 by simp
      next
        case (JObj kvs)
        then have "s' = s2"
          using assms(2) \<open>userId = JStr uid\<close> \<open>uid \<noteq> []\<close> g o h m True
          by (auto simp: postHubState_def simp del: deepMerge.simps)
        then show ?thesis using s2 by simp
      qed
    next
      case False
      then have u: "storeUpdatedState (now 3) (now 4) uid v updatedState s2 = Answer r s'"
        using assms(2) JStr \<open>uid \<noteq> []\<close> g o h m
        by (auto simp: postHubState_def simp del: deepMerge.simps)
      show ?thesis
        using storeUpdatedState_Answer [OF u] s2 unfolding profilesHaveState_def
        by simp blast
    qed
  qed
qed (use assms in \<open>auto simp: postHubState_def split: if_splits\<close>)

lemma getHubState_profilesHaveState:
  assumes "profilesHaveState s" and "getHubState now userId s = Answer r s'"
  shows "profilesHaveState s'"
proof -
  obtain v s1 where g: "getVisitorId userId s = (v, s1)" by (cases "getVisitorId userId s")
  have s1: "profilesHaveState s1"
    using assms(1) getVisitorId_stores [of userId s] g by (simp add: profilesHaveState_def)
  obtain h s2 where o: "getOrCreateHubState (now 0) v s1 = (h, s2)"
    by (cases "getOrCreateHubState (now 0) v s1")
  have "profilesHaveState s2"
    using s1 getOrCreateHubState_profilesHaveState [OF o]
    by (auto simp: profilesHaveState_def)
  then show ?thesis
    using assms g o by (auto simp: getHubState_def split: if_splits hubStateRef.splits)
qed

lemma postProfileRegister_profilesHaveState:
  assumes "profilesHaveState s" and "postProfileRegister now userId nm s = Answer r s'"
  shows "profilesHaveState s'"
proof (cases "truthy userId \<and> truthy nm")
  case False
  then show ?thesis using assms by (auto simp: postProfileRegister_def)
next
  case True
  show ?thesis
  proof (cases userId)
    case (JStr uid)
    obtain v s1 where g: "getVisitorId uid s = (v, s1)" by (cases "getVisitorId uid s")
    have s1: "profilesHaveState s1"
      using assms(1) getVisitorId_stores [of uid s] g by (simp add: profilesHaveState_def)
    show ?thesis
    proof (cases nm)
      case (JStr n)
      let ?p = "\<lparr>name = n, avatar = getAvatarForName n,
         createdAt = createdAtOr s1 v (now 0), lastSeen = now 1\<rparr>"
      from assms(2) True \<open>userId = JStr uid\<close> JStr g obtain profiles where
        p: "assignStore (registeredProfiles s1) v ?p = Some profiles"
        by (cases "assignStore (registeredProfiles s1) v ?p")
          (auto simp: postProfileRegister_def Let_def)
      have dp: "dom profiles = insert v (dom (registeredProfiles s1))"
        using p by (auto simp: assignStore_def split: if_splits)
      obtain h s3 where o: "getOrCreateHubState (now 2) v
          (s1\<lparr>registeredProfiles := profiles\<rparr>) = (h, s3)"
        by (cases "getOrCreateHubState (now 2) v (s1\<lparr>registeredProfiles := profiles\<rparr>)")
      from assms(2) True \<open>userId = JStr uid\<close> JStr g p o obtain hubState where
        h: "h = StateObject hubState"
        by (cases h) (auto simp: postProfileRegister_def Let_def)
      note f = getOrCreateHubState_profilesHaveState [OF o]
      from assms(2) True \<open>userId = JStr uid\<close> JStr g p o h obtain states where
        a: "assignStore (hubStateByVisitorId s3) v
              (setProp (setProp hubState ''displayName'' (JStr n)) ''profile''
                 (JStr (toLowerCase n))) = Some states"
        and s': "s' = s3\<lparr>hubStateByVisitorId := states\<rparr>"
        by (auto simp: postProfileRegister_def Let_def split: option.splits)
      have ds: "dom (hubStateByVisitorId s') = insert v (dom (hubStateByVisitorId s3))"
        using a s' by (auto simp: assignStore_def split: if_splits)
      have dr: "dom (registeredProfiles s') = insert v (dom (registeredProfiles s1))"
        using f dp s' by simp
      have m: "dom (hubStateByVisitorId s1) \<subseteq> dom (hubStateByVisitorId s3)"
        using f by simp
      have "insert v (dom (registeredProfiles s1)) \<subseteq> insert v (dom (hubStateByVisitorId s3))"
        using s1 m unfolding profilesHaveState_def
        by (intro insert_mono) (rule order_trans)
      then show ?thesis unfolding profilesHaveState_def ds dr .
    qed (use assms True \<open>userId = JStr uid\<close> g s1 in
        \<open>auto simp: postProfileRegister_def\<close>)
  qed (use assms True in \<open>auto simp: postProfileRegister_def\<close>)
qed

lemma postHubReset_profilesHaveState:
  assumes "profilesHaveState s" and "postHubReset now userId s = Answer r s'"
  shows "profilesHaveState s'"
proof (cases userId)
  case (JStr uid)
  obtain v s1 where g: "getVisitorId uid s = (v, s1)" by (cases "getVisitorId uid s")
  have s1: "profilesHaveState s1"
    using assms(1) getVisitorId_stores [of uid s] g by (simp add: profilesHaveState_def)
  show ?thesis
  proof (cases "uid = []")
    case True
    then show ?thesis using assms JStr by (simp add: postHubReset_def)
  next
    case False
    then have e: "s' = s1\<lparr>hubStateByVisitorId :=
        (hubStateByVisitorId s1)(v \<mapsto> createDefaultHubState (now 0) v)\<rparr>"
      using assms(2) JStr g
      by (simp add: postHubReset_def assignStore_def split: if_splits)
    have "dom (registeredProfiles s1) \<subseteq> insert v (dom (hubStateByVisitorId s1))"
      using s1 unfolding profilesHaveState_def by (rule subset_insertI2)
    then show ?thesis unfolding profilesHaveState_def e by simp
  qed
qed (use assms in \<open>auto simp: postHubReset_def split: if_splits\<close>)

lemma storeAfter_Answer: "storeAfter out = Some s' \<Longrightarrow> \<exists>r. out = Answer r s'"
  by (cases out) simp_all

lemma handle_profilesHaveState:
  assumes "profilesHaveState s" and "handle now req s = Some s'"
  shows "profilesHaveState s'"
proof (cases req)
  case (PostHubState userId state displayName)
  then show ?thesis
    using assms storeAfter_Answer postHubState_profilesHaveState by (metis handle.simps(1))
next
  case (GetHubState userId)
  then show ?thesis
    using assms storeAfter_Answer getHubState_profilesHaveState by (metis handle.simps(2))
next
  case (PostProfileRegister userId nm)
  then show ?thesis
    using assms storeAfter_Answer postProfileRegister_profilesHaveState
    by (metis handle.simps(4))
next
  case (PostHubReset userId)
  then show ?thesis
    using assms storeAfter_Answer postHubReset_profilesHaveState by (metis handle.simps(6))
qed (use assms in simp_all)

lemma reachable_profilesHaveState: "reachable s \<Longrightarrow> profilesHaveState s"
proof (induction rule: reachable.induct)
  case reachable_init
  show ?case by (simp add: initialServer_def profilesHaveState_def)
next
  case (reachable_step s now req s')
  then show ?case using handle_profilesHaveState by blast
qed

text \<open>
  C9. In every store the server reaches from the empty one by requests that the
  embedding follows to their end, each visitor identifier with a registered profile
  has a hub state. The registration of the name \<open>Mom\<close> for the user identifier
  \<open>constructor\<close> on the empty store is not such a request: the handler writes the
  profile, then \<open>getOrCreateHubState\<close> finds the function that the dictionary inherits
  under that name and creates no state, and the handler goes on with that function in
  the place of the hub state. At that point the profile is registered and the visitor
  has no hub state.
\<close>

theorem profile_implies_state:
  "(reachable s \<longrightarrow> dom (registeredProfiles s) \<subseteq> dom (hubStateByVisitorId s)) \<and>
   getOrCreateHubState (now 2) ''constructor''
       (initialServer\<lparr>registeredProfiles :=
          [''constructor'' \<mapsto>
             \<lparr>name = ''Mom'', avatar = avatarWoman, createdAt = now 0, lastSeen = now 1\<rparr>]\<rparr>) =
     (InheritedObject ''constructor'',
      initialServer\<lparr>registeredProfiles :=
          [''constructor'' \<mapsto>
             \<lparr>name = ''Mom'', avatar = avatarWoman, createdAt = now 0, lastSeen = now 1\<rparr>]\<rparr>) \<and>
   postProfileRegister now (JStr ''constructor'') (JStr ''Mom'') initialServer =
     Beyond (initialServer\<lparr>registeredProfiles :=
          [''constructor'' \<mapsto>
             \<lparr>name = ''Mom'', avatar = avatarWoman, createdAt = now 0, lastSeen = now 1\<rparr>]\<rparr>) \<and>
   hubStateByVisitorId (initialServer\<lparr>registeredProfiles :=
          [''constructor'' \<mapsto>
             \<lparr>name = ''Mom'', avatar = avatarWoman, createdAt = now 0, lastSeen = now 1\<rparr>]\<rparr>)
     ''constructor'' = None"
proof (intro conjI impI)
  assume "reachable s"
  then show "dom (registeredProfiles s) \<subseteq> dom (hubStateByVisitorId s)"
    using reachable_profilesHaveState by (simp add: profilesHaveState_def)
next
  have n: "''constructor'' \<in> set objectPrototypeNames"
    by (simp add: objectPrototypeNames_def)
  show g: "getOrCreateHubState (now 2) ''constructor''
       (initialServer\<lparr>registeredProfiles :=
          [''constructor'' \<mapsto>
             \<lparr>name = ''Mom'', avatar = avatarWoman, createdAt = now 0, lastSeen = now 1\<rparr>]\<rparr>) =
     (InheritedObject ''constructor'',
      initialServer\<lparr>registeredProfiles :=
          [''constructor'' \<mapsto>
             \<lparr>name = ''Mom'', avatar = avatarWoman, createdAt = now 0, lastSeen = now 1\<rparr>]\<rparr>)"
    using n by (simp add: getOrCreateHubState_def initialServer_def)
  have v: "getVisitorId ''constructor'' initialServer = (''constructor'', initialServer)"
    by (simp add: getVisitorId_def startsWith_def)
  have a: "getAvatarForName ''Mom'' = avatarWoman" by code_simp
  have c: "createdAtOr initialServer ''constructor'' (now 0) = now 0"
    by (simp add: createdAtOr_def initialServer_def)
  have p: "assignStore (registeredProfiles initialServer) ''constructor''
      \<lparr>name = ''Mom'', avatar = avatarWoman, createdAt = now 0, lastSeen = now 1\<rparr> =
      Some [''constructor'' \<mapsto>
             \<lparr>name = ''Mom'', avatar = avatarWoman, createdAt = now 0, lastSeen = now 1\<rparr>]"
    by (simp add: assignStore_def initialServer_def)
  show "postProfileRegister now (JStr ''constructor'') (JStr ''Mom'') initialServer =
     Beyond (initialServer\<lparr>registeredProfiles :=
          [''constructor'' \<mapsto>
             \<lparr>name = ''Mom'', avatar = avatarWoman, createdAt = now 0, lastSeen = now 1\<rparr>]\<rparr>)"
    using v a c p g by (simp add: postProfileRegister_def Let_def)
  show "hubStateByVisitorId (initialServer\<lparr>registeredProfiles :=
          [''constructor'' \<mapsto>
             \<lparr>name = ''Mom'', avatar = avatarWoman, createdAt = now 0, lastSeen = now 1\<rparr>]\<rparr>)
     ''constructor'' = None"
    by (simp add: initialServer_def)
qed

theorem profile_implies_state_witness:
  "handleAll [(clockAt ''T1'', PostProfileRegister (JStr ''web-1'') (JStr ''Mom'')),
              (clockAt ''T2'', PostHubReset (JStr ''web-1''))] initialServer \<noteq> None \<and>
   reachable (the (handleAll
     [(clockAt ''T1'', PostProfileRegister (JStr ''web-1'') (JStr ''Mom'')),
      (clockAt ''T2'', PostHubReset (JStr ''web-1''))] initialServer)) \<and>
   ''web-1'' \<in> dom (registeredProfiles (the (handleAll
     [(clockAt ''T1'', PostProfileRegister (JStr ''web-1'') (JStr ''Mom'')),
      (clockAt ''T2'', PostHubReset (JStr ''web-1''))] initialServer))) \<and>
   ''web-1'' \<in> dom (hubStateByVisitorId (the (handleAll
     [(clockAt ''T1'', PostProfileRegister (JStr ''web-1'') (JStr ''Mom'')),
      (clockAt ''T2'', PostHubReset (JStr ''web-1''))] initialServer)))"
proof -
  let ?r1 = "PostProfileRegister (JStr ''web-1'') (JStr ''Mom'')"
  let ?r2 = "PostHubReset (JStr ''web-1'')"
  let ?s1 = "the (handle (clockAt ''T1'') ?r1 initialServer)"
  let ?s2 = "the (handle (clockAt ''T2'') ?r2 ?s1)"
  have h1: "handle (clockAt ''T1'') ?r1 initialServer \<noteq> None" by code_simp
  have h2: "handle (clockAt ''T2'') ?r2 ?s1 \<noteq> None" by code_simp
  have e: "handleAll [(clockAt ''T1'', ?r1), (clockAt ''T2'', ?r2)] initialServer = Some ?s2"
    using h1 h2 by (auto simp del: handle.simps)
  have "reachable ?s1"
    using h1 reachable_step [OF reachable_init, of "clockAt ''T1''" ?r1 ?s1] by simp
  then have r: "reachable ?s2"
    using h2 reachable_step [of ?s1 "clockAt ''T2''" ?r2 ?s2] by simp
  have p: "registeredProfiles ?s2 ''web-1'' \<noteq> None" by code_simp
  show ?thesis
    using profile_implies_state [of ?s2] r p e by (auto simp del: handle.simps handleAll.simps)
qed

subsection \<open>Requests without a user identifier\<close>

text \<open>
  C8. \<open>POST /hub/state\<close> with a body that has no \<open>userId\<close> (or a falsy one: null, false,
  0, the empty string) answers 400 with \<open>{ok: false, error: 'userId is required'}\<close>, and
  the store after the request is the store before it: no hub state, no mapping entry,
  no profile is written.
\<close>

theorem postHubState_without_userId:
  "\<not> truthy userId \<Longrightarrow>
   postHubState now userId state displayName s =
     Answer
       (Response 400 (JObj [(''ok'', JBool False), (''error'', JStr ''userId is required'')]))
       s"
  by (simp add: postHubState_def badRequest_def)

theorem postHubState_without_userId_witness:
  "\<not> truthy JUndefined \<and>
   postHubState (clockAt ''T1'') JUndefined (JObj [(''activeTile'', JStr ''grocery'')])
       (JStr ''Mom'') initialServer =
     Answer
       (Response 400 (JObj [(''ok'', JBool False), (''error'', JStr ''userId is required'')]))
       initialServer"
  using postHubState_without_userId
    [of JUndefined "clockAt ''T1''" "JObj [(''activeTile'', JStr ''grocery'')]" "JStr ''Mom''"
       initialServer]
  by simp

subsection \<open>Default state\<close>

text \<open>
  C3. The first access to a visitor identifier that has no hub state, and that is not
  one of the names every object inherits, stores and returns the default state. Its
  fields are the documented ones, with one exception: the object literal writes the
  null under the key \<open>odisplayName\<close>, so the state has no property \<open>displayName\<close> (the
  key that registration and \<open>POST /hub/state\<close> write later). For an inherited name
  without a hub state the first access creates nothing and returns the inherited
  built-in object.
\<close>

theorem default_state_fields:
  "(hubStateByVisitorId s v = None \<and> v \<notin> set objectPrototypeNames \<longrightarrow>
      getOrCreateHubState t v s =
        (StateObject (createDefaultHubState t v),
         s\<lparr>hubStateByVisitorId :=
             (hubStateByVisitorId s)(v \<mapsto> createDefaultHubState t v)\<rparr>)) \<and>
   (hubStateByVisitorId s v = None \<and> v \<in> set objectPrototypeNames \<longrightarrow>
      getOrCreateHubState t v s = (InheritedObject v, s)) \<and>
   map (\<lambda>key. (key, getProp (createDefaultHubState t v) key))
     [''visitorId'', ''activeTile'', ''lastAction'', ''profile'', ''routineResult'',
      ''groceryList'', ''pendingItem'', ''privacy'', ''tasks'', ''customTasks'', ''debugInfo''] =
     [(''visitorId'', JStr v),
      (''activeTile'', JStr ''home''),
      (''lastAction'', JStr ''NONE''),
      (''profile'', JStr ''default''),
      (''routineResult'',
         JObj [(''lights'', JNull), (''thermostat'', JNull), (''reminder'', JNull)]),
      (''groceryList'', JArr []),
      (''pendingItem'', JNull),
      (''privacy'',
         JObj [(''microphoneEnabled'', JBool True), (''allowVoiceHistory'', JBool True),
               (''lastHistoryDelete'', JNull)]),
      (''tasks'', JArr DEFAULT_TASKS),
      (''customTasks'', JArr []),
      (''debugInfo'',
         JObj [(''lastUpdated'', JStr t), (''lastAlexaRequest'', JNull),
               (''isAlexaUser'', JBool (startsWith v ''alexa-user-''))])] \<and>
   map fst (createDefaultHubState t v) =
     [''visitorId'', ''odisplayName'', ''activeTile'', ''lastAction'', ''profile'',
      ''routineResult'', ''groceryList'', ''pendingItem'', ''privacy'', ''tasks'',
      ''customTasks'', ''debugInfo''] \<and>
   getProp (createDefaultHubState t v) ''odisplayName'' = JNull \<and>
   getProp (createDefaultHubState t v) ''displayName'' = JUndefined"
proof (intro conjI impI)
  assume "hubStateByVisitorId s v = None \<and> v \<notin> set objectPrototypeNames"
  then show "getOrCreateHubState t v s =
        (StateObject (createDefaultHubState t v),
         s\<lparr>hubStateByVisitorId :=
             (hubStateByVisitorId s)(v \<mapsto> createDefaultHubState t v)\<rparr>)"
    by (simp add: getOrCreateHubState_def)
next
  assume "hubStateByVisitorId s v = None \<and> v \<in> set objectPrototypeNames"
  then show "getOrCreateHubState t v s = (InheritedObject v, s)"
    by (simp add: getOrCreateHubState_def)
qed (simp_all add: createDefaultHubState_def getProp_def)

theorem default_state_fields_witness:
  "hubStateByVisitorId initialServer ''web-1'' = None \<and>
   ''web-1'' \<notin> set objectPrototypeNames \<and>
   getOrCreateHubState ''T'' ''web-1'' initialServer =
     (StateObject (createDefaultHubState ''T'' ''web-1''),
      initialServer\<lparr>hubStateByVisitorId :=
        (hubStateByVisitorId initialServer)
          (''web-1'' \<mapsto> createDefaultHubState ''T'' ''web-1'')\<rparr>) \<and>
   hubStateByVisitorId initialServer ''toString'' = None \<and>
   ''toString'' \<in> set objectPrototypeNames \<and>
   getOrCreateHubState ''T'' ''toString'' initialServer =
     (InheritedObject ''toString'', initialServer) \<and>
   getProp (createDefaultHubState ''T'' ''web-1'') ''displayName'' = JUndefined"
proof -
  have a: "hubStateByVisitorId initialServer ''web-1'' = None"
    and b: "hubStateByVisitorId initialServer ''toString'' = None"
    by (simp_all add: initialServer_def)
  have c: "''web-1'' \<notin> set objectPrototypeNames"
    and d: "''toString'' \<in> set objectPrototypeNames"
    by (simp_all add: objectPrototypeNames_def)
  note t1 = default_state_fields [of initialServer "''web-1''" "''T''", THEN conjunct1]
  note t2 = default_state_fields [of initialServer "''toString''" "''T''",
      THEN conjunct2, THEN conjunct1]
  have e: "getProp (createDefaultHubState ''T'' ''web-1'') ''displayName'' = JUndefined"
    by (simp add: createDefaultHubState_def getProp_def)
  from t1 a c have f1: "getOrCreateHubState ''T'' ''web-1'' initialServer =
     (StateObject (createDefaultHubState ''T'' ''web-1''),
      initialServer\<lparr>hubStateByVisitorId :=
        (hubStateByVisitorId initialServer)
          (''web-1'' \<mapsto> createDefaultHubState ''T'' ''web-1'')\<rparr>)"
    by (rule mp [OF _ conjI])
  from t2 b d have f2: "getOrCreateHubState ''T'' ''toString'' initialServer =
     (InheritedObject ''toString'', initialServer)"
    by (rule mp [OF _ conjI])
  show ?thesis
    by (intro conjI a b c d e f1 f2)
qed

subsection \<open>Display name\<close>

lemma getProp_setProp_other:
  "k \<noteq> key \<Longrightarrow> map_of (setProp obj key v) k = map_of obj k"
  by (simp add: map_of_setProp)

lemma storeUpdatedState_stored:
  assumes "hubStateByVisitorId s v \<noteq> None" and "registeredProfiles s v \<noteq> None"
  shows "\<exists>r s' st. storeUpdatedState t3 t4 uid v updatedState s = Answer r s' \<and>
    hubStateByVisitorId s' v = Some st \<and>
    map_of st ''displayName'' = map_of updatedState ''displayName'' \<and>
    map_of st ''profile'' = map_of updatedState ''profile''"
  using assms
  by (auto simp: storeUpdatedState_def Let_def assignStore_def map_of_setProp)

text \<open>
  C4. For a non-empty string \<open>userId\<close> and a non-empty string display name, with \<open>v\<close> the
  visitor identifier, not one of the names every object inherits: \<open>POST /hub/state\<close>,
  when the merge of the request's \<open>state\<close> returns an object with the prototype of
  every object, stores a hub state whose \<open>displayName\<close> is the name, and whose
  \<open>profile\<close> is whatever the merge left there (the handler does not set it);
  \<open>POST /hub/profile/register\<close> stores a hub state whose \<open>displayName\<close> is the name and
  whose \<open>profile\<close> is the lowercased name.
\<close>

theorem displayName_propagation:
  "uid \<noteq> [] \<and> dn \<noteq> [] \<and> fst (getVisitorId uid s) \<notin> set objectPrototypeNames \<longrightarrow>
     (let v = fst (getVisitorId uid s);
          s1 = snd (getVisitorId uid s)
      in
        (\<forall>existingState s2 updatedState.
           getOrCreateHubState (now 0) v s1 = (StateObject existingState, s2) \<and>
           deepMerge (Record existingState) (if truthy state then state else JObj []) =
             Merged updatedState \<longrightarrow>
           (\<exists>r s'. postHubState now (JStr uid) state (JStr dn) s = Answer r s' \<and>
              map_option (\<lambda>st. (map_of st ''displayName'', map_of st ''profile''))
                (hubStateByVisitorId s' v) =
              Some (Some (JStr dn), map_of updatedState ''profile''))) \<and>
        (\<exists>existingState s2. getOrCreateHubState (now 0) v s1 = (StateObject existingState, s2)) \<and>
        (\<exists>r s'. postProfileRegister now (JStr uid) (JStr dn) s = Answer r s' \<and>
           map_option (\<lambda>st. (map_of st ''displayName'', map_of st ''profile''))
             (hubStateByVisitorId s' v) =
           Some (Some (JStr dn), Some (JStr (toLowerCase dn)))))"
proof (intro impI)
  assume a: "uid \<noteq> [] \<and> dn \<noteq> [] \<and> fst (getVisitorId uid s) \<notin> set objectPrototypeNames"
  obtain v s1 where g: "getVisitorId uid s = (v, s1)" by (cases "getVisitorId uid s")
  have vn: "v \<notin> set objectPrototypeNames" using a g by simp
  then have vp: "v \<noteq> ''__proto__''" by (auto simp: objectPrototypeNames_def)
  have p1: "\<exists>r s'. postHubState now (JStr uid) state (JStr dn) s = Answer r s' \<and>
        map_option (\<lambda>st. (map_of st ''displayName'', map_of st ''profile''))
          (hubStateByVisitorId s' v) =
        Some (Some (JStr dn), map_of updatedState ''profile'')"
    if o: "getOrCreateHubState (now 0) v s1 = (StateObject existingState, s2)"
      and m: "deepMerge (Record existingState) (if truthy state then state else JObj []) =
        Merged updatedState"
    for existingState s2 updatedState
  proof -
    let ?p = "\<lparr>name = dn, avatar = getAvatarForName dn,
       createdAt = createdAtOr s2 v (now 1), lastSeen = now 2\<rparr>"
    let ?s = "s2\<lparr>registeredProfiles := (registeredProfiles s2)(v \<mapsto> ?p)\<rparr>"
    have h2: "hubStateByVisitorId ?s v \<noteq> None"
      using getOrCreateHubState_StateObject [OF o] by simp
    have r2: "registeredProfiles ?s v \<noteq> None" by simp
    from storeUpdatedState_stored [OF h2 r2, of "now 3" "now 4" uid
        "setProp updatedState ''displayName'' (JStr dn)"]
    obtain r s' st where u: "storeUpdatedState (now 3) (now 4) uid v
          (setProp updatedState ''displayName'' (JStr dn)) ?s = Answer r s'"
      and st: "hubStateByVisitorId s' v = Some st"
      and d: "map_of st ''displayName'' =
          map_of (setProp updatedState ''displayName'' (JStr dn)) ''displayName''"
      and pr: "map_of st ''profile'' =
          map_of (setProp updatedState ''displayName'' (JStr dn)) ''profile''"
      by blast
    have "postHubState now (JStr uid) state (JStr dn) s = Answer r s'"
      using a g o m u vp
      by (simp add: postHubState_def assignStore_def del: deepMerge.simps)
    then show ?thesis
      using st d pr by (simp add: map_of_setProp)
  qed
  have p2: "\<exists>existingState s2. getOrCreateHubState (now 0) v s1 = (StateObject existingState, s2)"
    using vn by (auto simp: getOrCreateHubState_def split: option.splits)
  have p3: "\<exists>r s'. postProfileRegister now (JStr uid) (JStr dn) s = Answer r s' \<and>
      map_option (\<lambda>st. (map_of st ''displayName'', map_of st ''profile''))
        (hubStateByVisitorId s' v) =
      Some (Some (JStr dn), Some (JStr (toLowerCase dn)))"
    using a g vn vp
    by (auto simp: postProfileRegister_def Let_def assignStore_def getOrCreateHubState_def
        map_of_setProp split: option.splits)
  show "let v = fst (getVisitorId uid s); s1 = snd (getVisitorId uid s)
      in
        (\<forall>existingState s2 updatedState.
           getOrCreateHubState (now 0) v s1 = (StateObject existingState, s2) \<and>
           deepMerge (Record existingState) (if truthy state then state else JObj []) =
             Merged updatedState \<longrightarrow>
           (\<exists>r s'. postHubState now (JStr uid) state (JStr dn) s = Answer r s' \<and>
              map_option (\<lambda>st. (map_of st ''displayName'', map_of st ''profile''))
                (hubStateByVisitorId s' v) =
              Some (Some (JStr dn), map_of updatedState ''profile''))) \<and>
        (\<exists>existingState s2. getOrCreateHubState (now 0) v s1 = (StateObject existingState, s2)) \<and>
        (\<exists>r s'. postProfileRegister now (JStr uid) (JStr dn) s = Answer r s' \<and>
           map_option (\<lambda>st. (map_of st ''displayName'', map_of st ''profile''))
             (hubStateByVisitorId s' v) =
           Some (Some (JStr dn), Some (JStr (toLowerCase dn))))"
    unfolding Let_def g fst_conv snd_conv
    using p1 p2 p3 by blast
qed

text \<open>
  On the empty store, \<open>POST /hub/state\<close> for \<open>web-1\<close> with \<open>displayName: 'Mom'\<close> and no
  \<open>state\<close> leaves \<open>profile\<close> at \<open>default\<close>; registration of the same name sets it to \<open>mom\<close>.
\<close>

theorem displayName_propagation_witness:
  "''web-1'' \<noteq> [] \<and> ''Mom'' \<noteq> [] \<and>
   fst (getVisitorId ''web-1'' initialServer) \<notin> set objectPrototypeNames \<and>
   getOrCreateHubState (clockAt ''T'' 0) ''web-1'' initialServer =
     (StateObject (createDefaultHubState ''T'' ''web-1''),
      initialServer\<lparr>hubStateByVisitorId := [''web-1'' \<mapsto> createDefaultHubState ''T'' ''web-1'']\<rparr>) \<and>
   deepMerge (Record (createDefaultHubState ''T'' ''web-1''))
       (if truthy JUndefined then JUndefined else JObj []) =
     Merged (createDefaultHubState ''T'' ''web-1'') \<and>
   storeAfter (postHubState (clockAt ''T'') (JStr ''web-1'') JUndefined (JStr ''Mom'')
       initialServer) \<noteq> None \<and>
   map_option (\<lambda>st. (map_of st ''displayName'', map_of st ''profile''))
     (hubStateByVisitorId
        (storeOf (postHubState (clockAt ''T'') (JStr ''web-1'') JUndefined (JStr ''Mom'')
           initialServer))
        ''web-1'') =
     Some (Some (JStr ''Mom''), Some (JStr ''default'')) \<and>
   storeAfter (postProfileRegister (clockAt ''T'') (JStr ''web-1'') (JStr ''Mom'')
       initialServer) \<noteq> None \<and>
   map_option (\<lambda>st. (map_of st ''displayName'', map_of st ''profile''))
     (hubStateByVisitorId
        (storeOf (postProfileRegister (clockAt ''T'') (JStr ''web-1'') (JStr ''Mom'')
           initialServer))
        ''web-1'') =
     Some (Some (JStr ''Mom''), Some (JStr ''mom''))"
proof -
  have v: "getVisitorId ''web-1'' initialServer = (''web-1'', initialServer)"
    by (simp add: getVisitorId_def startsWith_def)
  have n: "''web-1'' \<noteq> [] \<and> ''Mom'' \<noteq> [] \<and>
      fst (getVisitorId ''web-1'' initialServer) \<notin> set objectPrototypeNames"
    unfolding v by (simp add: objectPrototypeNames_def)
  have o: "getOrCreateHubState (clockAt ''T'' 0) ''web-1'' initialServer =
     (StateObject (createDefaultHubState ''T'' ''web-1''),
      initialServer\<lparr>hubStateByVisitorId := [''web-1'' \<mapsto> createDefaultHubState ''T'' ''web-1'']\<rparr>)"
    by (simp add: getOrCreateHubState_def initialServer_def clockAt_def
        objectPrototypeNames_def)
  have m: "deepMerge (Record (createDefaultHubState ''T'' ''web-1''))
       (if truthy JUndefined then JUndefined else JObj []) =
     Merged (createDefaultHubState ''T'' ''web-1'')"
    by simp
  have d: "map_of (createDefaultHubState ''T'' ''web-1'') ''profile'' = Some (JStr ''default'')"
    by (simp add: createDefaultHubState_def)
  have l: "toLowerCase ''Mom'' = ''mom''" by code_simp
  note t = displayName_propagation
    [of "''web-1''" "''Mom''" initialServer "clockAt ''T''" JUndefined,
      unfolded Let_def v fst_conv snd_conv l, THEN mp, OF n [unfolded v fst_conv]]
  from t [THEN conjunct1, rule_format, OF conjI [OF o m]] obtain r s' where
    a: "postHubState (clockAt ''T'') (JStr ''web-1'') JUndefined (JStr ''Mom'') initialServer =
        Answer r s'"
    and a': "map_option (\<lambda>st. (map_of st ''displayName'', map_of st ''profile''))
        (hubStateByVisitorId s' ''web-1'') =
        Some (Some (JStr ''Mom''), map_of (createDefaultHubState ''T'' ''web-1'') ''profile'')"
    by blast
  from t [THEN conjunct2, THEN conjunct2] obtain r2 s2 where
    b: "postProfileRegister (clockAt ''T'') (JStr ''web-1'') (JStr ''Mom'') initialServer =
        Answer r2 s2"
    and b': "map_option (\<lambda>st. (map_of st ''displayName'', map_of st ''profile''))
        (hubStateByVisitorId s2 ''web-1'') =
        Some (Some (JStr ''Mom''), Some (JStr ''mom''))"
    by blast
  show ?thesis
    unfolding a b storeOf.simps storeAfter.simps
    using n o m a' b' unfolding d by simp
qed

subsection \<open>Avatars and registration\<close>

lemma startsWith_iff: "startsWith s p = (\<exists>q. s = p @ q)"
proof
  assume "startsWith s p"
  then have "s = p @ drop (length p) s"
    by (metis append_take_drop_id startsWith_def)
  then show "\<exists>q. s = p @ q" ..
next
  assume "\<exists>q. s = p @ q"
  then show "startsWith s p" by (auto simp: startsWith_def)
qed

lemma includesStr_iff: "includesStr s sub = (\<exists>p q. s = p @ sub @ q)"
proof (induction s)
  case Nil
  show ?case by auto
next
  case (Cons c cs)
  show ?case
  proof
    assume "includesStr (c # cs) sub"
    then consider "startsWith (c # cs) sub" | "includesStr cs sub" by auto
    then show "\<exists>p q. c # cs = p @ sub @ q"
    proof cases
      case 1
      then obtain q where "c # cs = sub @ q" using startsWith_iff by blast
      then have "c # cs = [] @ sub @ q" by simp
      then show ?thesis by blast
    next
      case 2
      then obtain p q where "cs = p @ sub @ q" using Cons.IH by blast
      then have "c # cs = (c # p) @ sub @ q" by simp
      then show ?thesis by blast
    qed
  next
    assume "\<exists>p q. c # cs = p @ sub @ q"
    then obtain p q where e: "c # cs = p @ sub @ q" by blast
    show "includesStr (c # cs) sub"
    proof (cases p)
      case Nil
      then have "startsWith (c # cs) sub" using e startsWith_iff by auto
      then show ?thesis by simp
    next
      case (Cons a p')
      then have "cs = p' @ sub @ q" using e by simp
      then have "includesStr cs sub" using Cons.IH by blast
      then show ?thesis by simp
    qed
  qed
qed



lemma getVisitorId_counter_again:
  "visitorCounter (snd (getVisitorId x (snd (getVisitorId x s)))) =
   visitorCounter (snd (getVisitorId x s))"
  by (simp add: getVisitorId_again)










text \<open>
  C10 (amended). Keywords are looked for in the whole lowercased name, the mother, father
  and child groups before the daughter and grandparent groups. A name that contains
  \<open>mother\<close> gets the mother avatar (so does \<open>Grandmother\<close>). A name that contains \<open>son\<close>
  gets the child avatar when it contains no keyword of the mother and father groups (so
  does \<open>Jason\<close>). A name that contains \<open>daughter\<close> or \<open>girl\<close> gets an avatar of its
  own when it contains no keyword of the three groups before. The eight avatars are
  different strings.
\<close>

theorem avatar_keyword_order:
  "(includesStr (toLowerCase nm) ''mother'' \<longrightarrow> getAvatarForName nm = avatarWoman) \<and>
   (includesStr (toLowerCase nm) ''son'' \<and>
    \<not> list_ex (includesStr (toLowerCase nm))
        [''mom'', ''mother'', ''mama'', ''dad'', ''father'', ''papa''] \<longrightarrow>
      getAvatarForName nm = avatarBoy) \<and>
   ((includesStr (toLowerCase nm) ''daughter'' \<or> includesStr (toLowerCase nm) ''girl'') \<and>
    \<not> list_ex (includesStr (toLowerCase nm))
        [''mom'', ''mother'', ''mama'', ''dad'', ''father'', ''papa'', ''kid'', ''child'',
         ''son''] \<longrightarrow>
      getAvatarForName nm = avatarGirl) \<and>
   getAvatarForName ''Grandmother'' = avatarWoman \<and>
   getAvatarForName ''Jason'' = avatarBoy \<and>
   getAvatarForName ''Grandma'' = avatarOldWoman \<and>
   distinct [avatarWoman, avatarMan, avatarBoy, avatarGirl, avatarOldWoman, avatarOldMan,
             avatarStudent, avatarGeneric]"
proof (intro conjI impI)
  show "getAvatarForName ''Grandmother'' = avatarWoman" by code_simp
  show "getAvatarForName ''Jason'' = avatarBoy" by code_simp
  show "getAvatarForName ''Grandma'' = avatarOldWoman" by code_simp
  show "distinct [avatarWoman, avatarMan, avatarBoy, avatarGirl, avatarOldWoman, avatarOldMan,
             avatarStudent, avatarGeneric]" by code_simp
qed (auto simp: getAvatarForName_def Let_def)

text \<open>
  C10 as stated fails: \<open>Mom and son\<close> contains \<open>son\<close> and gets the mother avatar, which
  is not the child avatar.
\<close>

theorem avatar_keyword_order_counterexample:
  "includesStr (toLowerCase ''Mom and son'') ''son'' \<and>
   getAvatarForName ''Mom and son'' = avatarWoman \<and>
   avatarWoman \<noteq> avatarBoy"
  by code_simp

theorem avatar_keyword_order_witness:
  "includesStr (toLowerCase ''Stepmother'') ''mother'' \<and>
   getAvatarForName ''Stepmother'' = avatarWoman \<and>
   includesStr (toLowerCase ''Jason'') ''son'' \<and>
   list_ex (includesStr (toLowerCase ''Jason''))
     [''mom'', ''mother'', ''mama'', ''dad'', ''father'', ''papa''] = False \<and>
   getAvatarForName ''Jason'' = avatarBoy \<and>
   includesStr (toLowerCase ''Girlfriend'') ''girl'' \<and>
   list_ex (includesStr (toLowerCase ''Girlfriend''))
     [''mom'', ''mother'', ''mama'', ''dad'', ''father'', ''papa'', ''kid'', ''child'',
      ''son''] = False \<and>
   getAvatarForName ''Girlfriend'' = avatarGirl"
proof -
  have m: "includesStr (toLowerCase ''Stepmother'') ''mother''" by code_simp
  have j: "includesStr (toLowerCase ''Jason'') ''son''" by code_simp
  have j': "list_ex (includesStr (toLowerCase ''Jason''))
     [''mom'', ''mother'', ''mama'', ''dad'', ''father'', ''papa''] = False" by code_simp
  have g: "includesStr (toLowerCase ''Girlfriend'') ''girl''" by code_simp
  have g': "list_ex (includesStr (toLowerCase ''Girlfriend''))
     [''mom'', ''mother'', ''mama'', ''dad'', ''father'', ''papa'', ''kid'', ''child'',
      ''son''] = False" by code_simp
  show ?thesis
    using avatar_keyword_order [of "''Stepmother''"] avatar_keyword_order [of "''Jason''"]
      avatar_keyword_order [of "''Girlfriend''"] m j j' g g'
    by blast
qed

subsection \<open>Reset\<close>

lemma getVisitorId_hubState_update:
  "getVisitorId x (s\<lparr>hubStateByVisitorId := h\<rparr>) =
     (fst (getVisitorId x s), (snd (getVisitorId x s))\<lparr>hubStateByVisitorId := h\<rparr>)"
  by (simp add: getVisitorId_def split: option.splits)

lemma postHubReset_store:
  assumes "uid \<noteq> []" and "fst (getVisitorId uid s) \<noteq> ''__proto__''"
  shows "postHubReset now (JStr uid) s =
     Answer
       (Response 200
          (JObj [(''ok'', JBool True),
                 (''state'', JObj (createDefaultHubState (now 0) (fst (getVisitorId uid s))))]))
       ((snd (getVisitorId uid s))
          \<lparr>hubStateByVisitorId := (hubStateByVisitorId s)
             (fst (getVisitorId uid s) \<mapsto>
                createDefaultHubState (now 0) (fst (getVisitorId uid s)))\<rparr>)"
proof -
  obtain v s1 where g: "getVisitorId uid s = (v, s1)" by (cases "getVisitorId uid s")
  have "hubStateByVisitorId s1 = hubStateByVisitorId s"
    using getVisitorId_stores(1) [of uid s] g by simp
  then show ?thesis
    using assms g by (simp add: postHubReset_def assignStore_def)
qed

lemma getVisitorId_unchanged:
  "\<not> startsWith x ''amzn1.'' \<or> (\<exists>w. alexaUserToVisitor s x = Some w \<and> w \<noteq> []) \<Longrightarrow>
   snd (getVisitorId x s) = s"
  by (auto simp: getVisitorId_def)

lemma postHubReset_twice:
  assumes "uid \<noteq> []" and "fst (getVisitorId uid s) \<noteq> ''__proto__''"
  shows "postHubReset now2 (JStr uid) (storeOf (postHubReset now1 (JStr uid) s)) =
         postHubReset now2 (JStr uid) s"
proof -
  let ?v = "fst (getVisitorId uid s)"
  let ?g = "snd (getVisitorId uid s)"
  let ?h1 = "(hubStateByVisitorId s)(?v \<mapsto> createDefaultHubState (now1 0) ?v)"
  have s1: "storeOf (postHubReset now1 (JStr uid) s) = ?g\<lparr>hubStateByVisitorId := ?h1\<rparr>"
    using postHubReset_store [OF assms, of now1] by simp
  have g: "getVisitorId uid (?g\<lparr>hubStateByVisitorId := ?h1\<rparr>) =
      (?v, ?g\<lparr>hubStateByVisitorId := ?h1\<rparr>)"
    by (simp add: getVisitorId_hubState_update getVisitorId_again)
  have v: "fst (getVisitorId uid (?g\<lparr>hubStateByVisitorId := ?h1\<rparr>)) \<noteq> ''__proto__''"
    using g assms(2) by simp
  have "postHubReset now2 (JStr uid) (?g\<lparr>hubStateByVisitorId := ?h1\<rparr>) =
      postHubReset now2 (JStr uid) s"
    unfolding postHubReset_store [OF assms] postHubReset_store [OF assms(1) v] g
    by simp
  then show ?thesis unfolding s1 .
qed

lemma createDefaultHubState_clock:
  "createDefaultHubState t2 v =
     setProp (createDefaultHubState t1 v) ''debugInfo''
       (assignProp (getProp (createDefaultHubState t1 v) ''debugInfo'') ''lastUpdated'' (JStr t2))"
  by (simp add: createDefaultHubState_def getProp_def)

text \<open>
  C7 (amended). For a non-empty string \<open>userId\<close>, with \<open>v\<close> the visitor identifier it
  resolves to, other than \<open>__proto__\<close>: reset answers 200 with a new default state and
  stores it in place of whatever \<open>v\<close> had (no merge), leaving the states of all other
  visitors and every registered profile as they were; the identifier mapping and the
  counter are unchanged when \<open>userId\<close> has no prefix \<open>amzn1.\<close> or is already mapped
  (every visitor identifier is such a \<open>userId\<close>). A second reset answers and leaves
  what a single reset at the second clock reading would: the state after two resets is
  the state after the first with \<open>debugInfo.lastUpdated\<close> set to the second reading, and
  the store is the same as after one reset when the two readings are equal. (For
  \<open>__proto__\<close> the assignment replaces the prototype of the dictionary and stores
  nothing under the name.)
\<close>

theorem reset_replaces_state:
  "uid \<noteq> [] \<and> fst (getVisitorId uid s) \<noteq> ''__proto__'' \<longrightarrow>
     (let v = fst (getVisitorId uid s); s1 = storeOf (postHubReset now1 (JStr uid) s) in
        postHubReset now1 (JStr uid) s =
          Answer
            (Response 200 (JObj [(''ok'', JBool True),
                                 (''state'', JObj (createDefaultHubState (now1 0) v))]))
            s1 \<and>
        hubStateByVisitorId s1 =
          (hubStateByVisitorId s)(v \<mapsto> createDefaultHubState (now1 0) v) \<and>
        registeredProfiles s1 = registeredProfiles s \<and>
        (\<not> startsWith uid ''amzn1.'' \<or> (\<exists>w. alexaUserToVisitor s uid = Some w \<and> w \<noteq> []) \<longrightarrow>
           alexaUserToVisitor s1 = alexaUserToVisitor s \<and>
           visitorCounter s1 = visitorCounter s) \<and>
        postHubReset now2 (JStr uid) s1 = postHubReset now2 (JStr uid) s \<and>
        storeAfter (postHubReset now2 (JStr uid) s1) =
          Some (storeOf (postHubReset now2 (JStr uid) s)) \<and>
        hubStateByVisitorId (storeOf (postHubReset now2 (JStr uid) s1)) v =
          Some (setProp (createDefaultHubState (now1 0) v) ''debugInfo''
                  (assignProp (getProp (createDefaultHubState (now1 0) v) ''debugInfo'')
                     ''lastUpdated'' (JStr (now2 0)))) \<and>
        (now2 0 = now1 0 \<longrightarrow> storeOf (postHubReset now2 (JStr uid) s1) = s1))"
proof
  assume a: "uid \<noteq> [] \<and> fst (getVisitorId uid s) \<noteq> ''__proto__''"
  then have u: "uid \<noteq> []" and np: "fst (getVisitorId uid s) \<noteq> ''__proto__''" by simp_all
  let ?v = "fst (getVisitorId uid s)"
  let ?s1 = "storeOf (postHubReset now1 (JStr uid) s)"
  note st = postHubReset_store [OF u np]
  have r: "postHubReset now1 (JStr uid) s =
          Answer
            (Response 200 (JObj [(''ok'', JBool True),
                                 (''state'', JObj (createDefaultHubState (now1 0) ?v))]))
            ?s1"
    by (simp add: st)
  have h: "hubStateByVisitorId ?s1 =
          (hubStateByVisitorId s)(?v \<mapsto> createDefaultHubState (now1 0) ?v)"
    by (simp add: st)
  have p: "registeredProfiles ?s1 = registeredProfiles s"
    by (simp add: st getVisitorId_stores)
  have m: "\<not> startsWith uid ''amzn1.'' \<or> (\<exists>w. alexaUserToVisitor s uid = Some w \<and> w \<noteq> []) \<longrightarrow>
           alexaUserToVisitor ?s1 = alexaUserToVisitor s \<and>
           visitorCounter ?s1 = visitorCounter s"
    by (auto simp: st getVisitorId_unchanged)
  have t: "postHubReset now2 (JStr uid) ?s1 = postHubReset now2 (JStr uid) s"
    using u np by (rule postHubReset_twice)
  have t': "storeAfter (postHubReset now2 (JStr uid) ?s1) =
          Some (storeOf (postHubReset now2 (JStr uid) s))"
    unfolding t by (simp add: st)
  have d: "hubStateByVisitorId (storeOf (postHubReset now2 (JStr uid) ?s1)) ?v =
          Some (setProp (createDefaultHubState (now1 0) ?v) ''debugInfo''
                  (assignProp (getProp (createDefaultHubState (now1 0) ?v) ''debugInfo'')
                     ''lastUpdated'' (JStr (now2 0))))"
    unfolding t
    by (simp add: st createDefaultHubState_clock [of "now2 0" _ "now1 0"])
  have e: "now2 0 = now1 0 \<longrightarrow> storeOf (postHubReset now2 (JStr uid) ?s1) = ?s1"
    unfolding t by (simp add: st)
  show "let v = fst (getVisitorId uid s); s1 = storeOf (postHubReset now1 (JStr uid) s) in
        postHubReset now1 (JStr uid) s =
          Answer
            (Response 200 (JObj [(''ok'', JBool True),
                                 (''state'', JObj (createDefaultHubState (now1 0) v))]))
            s1 \<and>
        hubStateByVisitorId s1 =
          (hubStateByVisitorId s)(v \<mapsto> createDefaultHubState (now1 0) v) \<and>
        registeredProfiles s1 = registeredProfiles s \<and>
        (\<not> startsWith uid ''amzn1.'' \<or> (\<exists>w. alexaUserToVisitor s uid = Some w \<and> w \<noteq> []) \<longrightarrow>
           alexaUserToVisitor s1 = alexaUserToVisitor s \<and>
           visitorCounter s1 = visitorCounter s) \<and>
        postHubReset now2 (JStr uid) s1 = postHubReset now2 (JStr uid) s \<and>
        storeAfter (postHubReset now2 (JStr uid) s1) =
          Some (storeOf (postHubReset now2 (JStr uid) s)) \<and>
        hubStateByVisitorId (storeOf (postHubReset now2 (JStr uid) s1)) v =
          Some (setProp (createDefaultHubState (now1 0) v) ''debugInfo''
                  (assignProp (getProp (createDefaultHubState (now1 0) v) ''debugInfo'')
                     ''lastUpdated'' (JStr (now2 0)))) \<and>
        (now2 0 = now1 0 \<longrightarrow> storeOf (postHubReset now2 (JStr uid) s1) = s1)"
    unfolding Let_def
    by (intro conjI r h p m t t' d e)
qed

text \<open>
  C7 as stated fails: after a reset at clock reading \<open>T1\<close> and a second one at \<open>T2\<close>, the
  state of \<open>web-1\<close> is not the state after the first reset alone.
\<close>

theorem reset_replaces_state_counterexample:
  "hubStateByVisitorId
     (storeOf (postHubReset (clockAt ''T2'') (JStr ''web-1'')
        (storeOf (postHubReset (clockAt ''T1'') (JStr ''web-1'') initialServer)))) ''web-1'' \<noteq>
   hubStateByVisitorId
     (storeOf (postHubReset (clockAt ''T1'') (JStr ''web-1'') initialServer)) ''web-1''"
  by code_simp

theorem reset_replaces_state_witness:
  "''web-1'' \<noteq> [] \<and> fst (getVisitorId ''web-1'' initialServer) \<noteq> ''__proto__'' \<and>
   \<not> startsWith ''web-1'' ''amzn1.'' \<and>
   alexaUserToVisitor (storeOf (postHubReset (clockAt ''T1'') (JStr ''web-1'') initialServer)) =
     alexaUserToVisitor initialServer \<and>
   postHubReset (clockAt ''T2'') (JStr ''web-1'')
          (storeOf (postHubReset (clockAt ''T1'') (JStr ''web-1'') initialServer)) =
     postHubReset (clockAt ''T2'') (JStr ''web-1'') initialServer \<and>
   clockAt ''T1'' 0 = clockAt ''T1'' 0 \<and>
   storeOf (postHubReset (clockAt ''T1'') (JStr ''web-1'')
          (storeOf (postHubReset (clockAt ''T1'') (JStr ''web-1'') initialServer))) =
     storeOf (postHubReset (clockAt ''T1'') (JStr ''web-1'') initialServer)"
proof -
  have n: "''web-1'' \<noteq> [] \<and> fst (getVisitorId ''web-1'' initialServer) \<noteq> ''__proto__''"
    by (simp add: getVisitorId_def startsWith_def)
  have p: "\<not> startsWith ''web-1'' ''amzn1.''" by (simp add: startsWith_def)
  note a = reset_replaces_state
    [of "''web-1''" initialServer "clockAt ''T1''" "clockAt ''T2''", unfolded Let_def,
      THEN mp, OF n]
  note b = reset_replaces_state
    [of "''web-1''" initialServer "clockAt ''T1''" "clockAt ''T1''", unfolded Let_def,
      THEN mp, OF n]
  show ?thesis using a b n p by blast
qed

subsection \<open>The task list of a new state\<close>

text \<open>
  The heap embedding agrees with the embedding on values: after module load the catalog
  reads as \<open>DEFAULT_TASKS\<close>, and a new state reads as \<open>createDefaultHubState\<close>.
\<close>

lemma catalog_on_module_heap:
  "readJson 2 moduleHeap (Ref DEFAULT_TASKS_addr) = Some (JArr DEFAULT_TASKS)"
  by (simp add: moduleHeap_def DEFAULT_TASKS_addr_def DEFAULT_TASKS_def taskRecord_def
      nth_append numeral_2_eq_2)

lemma default_state_on_module_heap:
  "readJson 3 (snd (createDefaultHubStateRef t v moduleHeap))
     (Ref (fst (createDefaultHubStateRef t v moduleHeap))) =
   Some (JObj (createDefaultHubState t v))"
  by (simp add: createDefaultHubStateRef_def createDefaultHubState_def elementsAt_def
      moduleHeap_def DEFAULT_TASKS_addr_def DEFAULT_TASKS_def taskRecord_def nth_append
      numeral_3_eq_3 Let_def)

lemma create_length: "length (snd (createDefaultHubStateRef t v h)) = length h + 7"
  by (simp add: createDefaultHubStateRef_def Let_def)

lemma create_old: "a < length h \<Longrightarrow> snd (createDefaultHubStateRef t v h) ! a = h ! a"
  by (simp add: createDefaultHubStateRef_def Let_def nth_append)

lemma create_tasks:
  "snd (createDefaultHubStateRef t v h) ! (length h + 3) = HArray (elementsAt h DEFAULT_TASKS_addr)"
  by (simp add: createDefaultHubStateRef_def Let_def nth_append)

lemma create_state_tasks:
  "propertyRef (snd (createDefaultHubStateRef t v h)) (fst (createDefaultHubStateRef t v h))
     ''tasks'' = Some (length h + 3)"
  by (simp add: createDefaultHubStateRef_def Let_def propertyRef_def nth_append)

lemma catalog_after_array_write:
  "readJson 2 ((snd (createDefaultHubStateRef t v moduleHeap))[length moduleHeap + 3 := obj])
     (Ref DEFAULT_TASKS_addr) = Some (JArr DEFAULT_TASKS)"
  by (simp add: createDefaultHubStateRef_def elementsAt_def moduleHeap_def
      DEFAULT_TASKS_addr_def DEFAULT_TASKS_def taskRecord_def nth_append numeral_2_eq_2 Let_def)

lemma next_visitor_after_array_write:
  "readJson 3
     (snd (createDefaultHubStateRef t' v'
        ((snd (createDefaultHubStateRef t v moduleHeap))[length moduleHeap + 3 := obj])))
     (Ref (fst (createDefaultHubStateRef t' v'
        ((snd (createDefaultHubStateRef t v moduleHeap))[length moduleHeap + 3 := obj])))) =
   Some (JObj (createDefaultHubState t' v'))"
  by (simp add: createDefaultHubStateRef_def createDefaultHubState_def elementsAt_def
      moduleHeap_def DEFAULT_TASKS_addr_def DEFAULT_TASKS_def taskRecord_def nth_append
      numeral_3_eq_3 Let_def)

text \<open>
  C2 (amended). The task list of a new state is a new array: it lives at an address that
  did not exist before the state was created, and it holds the elements of
  \<open>DEFAULT_TASKS\<close>, that is, the addresses of the catalog's task records. Whatever is
  written into that array (any object \<open>obj\<close> in its place), every object that existed
  before the state was created is as it was: the catalog array, the task records, the
  states and task lists of the visitors before. After module load, the creation of a
  state and any write into its task array, the catalog still reads as \<open>DEFAULT_TASKS\<close>
  and the next new visitor still gets the documented default state.
\<close>

theorem tasks_copy_is_a_new_array:
  "propertyRef (snd (createDefaultHubStateRef t v h)) (fst (createDefaultHubStateRef t v h))
     ''tasks'' = Some (length h + 3) \<and>
   elementsAt (snd (createDefaultHubStateRef t v h)) (length h + 3) =
     elementsAt h DEFAULT_TASKS_addr \<and>
   (a < length h \<longrightarrow>
      (snd (createDefaultHubStateRef t v h))[length h + 3 := obj] ! a = h ! a) \<and>
   readJson 2 ((snd (createDefaultHubStateRef t v moduleHeap))[length moduleHeap + 3 := obj])
     (Ref DEFAULT_TASKS_addr) = Some (JArr DEFAULT_TASKS) \<and>
   readJson 3
     (snd (createDefaultHubStateRef t' v'
        ((snd (createDefaultHubStateRef t v moduleHeap))[length moduleHeap + 3 := obj])))
     (Ref (fst (createDefaultHubStateRef t' v'
        ((snd (createDefaultHubStateRef t v moduleHeap))[length moduleHeap + 3 := obj])))) =
     Some (JObj (createDefaultHubState t' v'))"
proof (intro conjI impI)
  show "propertyRef (snd (createDefaultHubStateRef t v h))
      (fst (createDefaultHubStateRef t v h)) ''tasks'' = Some (length h + 3)"
    by (rule create_state_tasks)
next
  show "elementsAt (snd (createDefaultHubStateRef t v h)) (length h + 3) =
      elementsAt h DEFAULT_TASKS_addr"
    using create_tasks [of t v h] create_length [of t v h]
    by (simp add: elementsAt_def [of "snd (createDefaultHubStateRef t v h)"])
next
  assume "a < length h"
  then show "(snd (createDefaultHubStateRef t v h))[length h + 3 := obj] ! a = h ! a"
    by (simp add: create_old)
next
  show "readJson 2
      ((snd (createDefaultHubStateRef t v moduleHeap))[length moduleHeap + 3 := obj])
      (Ref DEFAULT_TASKS_addr) = Some (JArr DEFAULT_TASKS)"
    by (rule catalog_after_array_write)
next
  show "readJson 3
     (snd (createDefaultHubStateRef t' v'
        ((snd (createDefaultHubStateRef t v moduleHeap))[length moduleHeap + 3 := obj])))
     (Ref (fst (createDefaultHubStateRef t' v'
        ((snd (createDefaultHubStateRef t v moduleHeap))[length moduleHeap + 3 := obj])))) =
     Some (JObj (createDefaultHubState t' v'))"
    by (rule next_visitor_after_array_write)
qed

theorem tasks_copy_is_a_new_array_witness:
  "DEFAULT_TASKS_addr < length moduleHeap \<and>
   (snd (createDefaultHubStateRef ''T1'' ''web-1'' moduleHeap))
     [length moduleHeap + 3 := HArray []] ! DEFAULT_TASKS_addr =
   moduleHeap ! DEFAULT_TASKS_addr"
proof -
  have l: "DEFAULT_TASKS_addr < length moduleHeap"
    by (simp add: DEFAULT_TASKS_addr_def moduleHeap_def)
  show ?thesis
    using tasks_copy_is_a_new_array
      [of "''T1''" "''web-1''" moduleHeap DEFAULT_TASKS_addr "HArray []"] l
    by blast
qed

text \<open>
  C2 as stated fails: the copy is not deep. After module load, a state is created for
  \<open>web-1\<close> and the title of the first task of its list is overwritten
  (\<open>state.tasks[0].title = 'Changed'\<close>); the catalog then reads differently, and so does
  the default state of the next new visitor \<open>web-2\<close>.
\<close>

theorem tasks_copy_counterexample:
  "readJson 2
     (writeElementProperty (snd (createDefaultHubStateRef ''T1'' ''web-1'' moduleHeap))
        (fst (createDefaultHubStateRef ''T1'' ''web-1'' moduleHeap))
        ''tasks'' 0 ''title'' (Prim (JStr ''Changed'')))
     (Ref DEFAULT_TASKS_addr) \<noteq>
   readJson 2 moduleHeap (Ref DEFAULT_TASKS_addr) \<and>
   readJson 3
     (snd (createDefaultHubStateRef ''T2'' ''web-2''
        (writeElementProperty (snd (createDefaultHubStateRef ''T1'' ''web-1'' moduleHeap))
           (fst (createDefaultHubStateRef ''T1'' ''web-1'' moduleHeap))
           ''tasks'' 0 ''title'' (Prim (JStr ''Changed'')))))
     (Ref (fst (createDefaultHubStateRef ''T2'' ''web-2''
        (writeElementProperty (snd (createDefaultHubStateRef ''T1'' ''web-1'' moduleHeap))
           (fst (createDefaultHubStateRef ''T1'' ''web-1'' moduleHeap))
           ''tasks'' 0 ''title'' (Prim (JStr ''Changed'')))))) \<noteq>
   Some (JObj (createDefaultHubState ''T2'' ''web-2''))"
  by code_simp

end
